theory Spec2Isabelle
  imports Complex_Main "HOL-Library.Finite_Map" "HOL-Library.Sublist"
begin

section \<open>Product stocks: the write model of \<^verbatim>\<open>stocks/commands/write_stock.py\<close>\<close>

text \<open>
  The module writes stock quantities to a relational store of record (MySQL, through a
  SQLAlchemy session) and mirrors them into a cache (Redis hashes under the keys
  \<^verbatim>\<open>stock:<product_id>\<close>). The embedding below keeps the store as lists of rows, the
  cache as a finite map from keys to hashes, and every exception as a value.
\<close>

subsection \<open>Text of integers\<close>

text \<open>
  Python's \<^verbatim>\<open>str(n)\<close> (used by the f-strings and by redis-py when it encodes an
  \<^verbatim>\<open>int\<close>) and \<^verbatim>\<open>int(text)\<close> on the text Redis hands back. Text is a list of bytes;
  digits and blanks beyond ASCII, which \<^verbatim>\<open>int\<close> accepts in a decoded \<^verbatim>\<open>str\<close>, are not
  modelled.
\<close>

datatype error =
    AttributeError
  | TypeError
  | ValueError
  | IntegrityError
  | ProgrammingError
  | ClientError string

definition digit_char :: "nat \<Rightarrow> char" where
  "digit_char n = ''0123456789'' ! n"

definition digit_val :: "char \<Rightarrow> nat option" where
  "digit_val c = map_of (zip ''0123456789'' [0, 1, 2, 3, 4, 5, 6, 7, 8, 9]) c"

function digits :: "nat \<Rightarrow> string" where
  "digits n = (if n < 10 then [digit_char n] else digits (n div 10) @ [digit_char (n mod 10)])"
  by pat_completeness auto
termination
  by (relation "measure id") auto

declare digits.simps [simp del]

definition str_nat :: "nat \<Rightarrow> string" where
  "str_nat n = digits n"

definition str_int :: "int \<Rightarrow> string" where
  "str_int i = (if i < 0 then CHR ''-'' # digits (nat (- i)) else digits (nat i))"

fun digits_value :: "nat \<Rightarrow> string \<Rightarrow> nat option" where
  "digits_value acc [] = Some acc"
| "digits_value acc (c # cs) =
     (case digit_val c of None \<Rightarrow> None | Some d \<Rightarrow> digits_value (acc * 10 + d) cs)"

definition nat_of_digits :: "string \<Rightarrow> nat option" where
  "nat_of_digits s = (if s = [] then None else digits_value 0 s)"

text \<open>
  \<^verbatim>\<open>int(text)\<close> in base 10: the blanks around the literal are dropped, a sign may come
  first, and the digits may be grouped by single underscores.
\<close>

definition is_space :: "char \<Rightarrow> bool" where
  "is_space c \<longleftrightarrow> c \<in> set [CHR '' '', CHR 0x09, CHR 0x0A, CHR 0x0B, CHR 0x0C, CHR 0x0D]"

definition strip :: "string \<Rightarrow> string" where
  "strip s = rev (dropWhile is_space (rev (dropWhile is_space s)))"

fun plain_digits :: "string \<Rightarrow> string option" where
  "plain_digits [] = None"
| "plain_digits [c] = (if digit_val c = None then None else Some [c])"
| "plain_digits (c # d # cs) =
     (if digit_val c = None then None
      else if d = CHR ''_'' then map_option (Cons c) (plain_digits cs)
      else map_option (Cons c) (plain_digits (d # cs)))"

definition nat_of_literal :: "string \<Rightarrow> nat option" where
  "nat_of_literal s = (case plain_digits s of None \<Rightarrow> None | Some ds \<Rightarrow> nat_of_digits ds)"

definition int_of_text :: "string \<Rightarrow> error + int" where
  "int_of_text s =
     (case strip s of
        [] \<Rightarrow> Inl ValueError
      | c # cs \<Rightarrow>
          if c = CHR ''-'' then
            (case nat_of_literal cs of None \<Rightarrow> Inl ValueError | Some n \<Rightarrow> Inr (- int n))
          else if c = CHR ''+'' then
            (case nat_of_literal cs of None \<Rightarrow> Inl ValueError | Some n \<Rightarrow> Inr (int n))
          else
            (case nat_of_literal (c # cs) of None \<Rightarrow> Inl ValueError | Some n \<Rightarrow> Inr (int n)))"

subsection \<open>The store of record\<close>

text \<open>
  Modelled from the spec: the declarations of the two tables (\<^verbatim>\<open>stocks.models.stock\<close>,
  \<^verbatim>\<open>stocks.models.product\<close>) and the module \<^verbatim>\<open>db\<close> that hands out the session and the
  cache connection are not part of the source at hand. The tables are
  \<^verbatim>\<open>stocks (product_id, quantity)\<close> with \<^verbatim>\<open>product_id\<close> its unique key and
  \<^verbatim>\<open>products (id, name, sku, price)\<close>, the columns the statements of the module name, kept
  as lists of rows. A stock row may lack a product: the module handles the missing product,
  so no foreign key is enforced here. Quantities are unbounded integers: the range of the
  column is not modelled. A price is an exact decimal; Python's \<^verbatim>\<open>float(price)\<close> is kept
  as the decimal itself, its binary rounding is not modelled.
\<close>

type_synonym decimal = rat

record stock_row =
  s_product_id :: int
  s_quantity :: int

record product =
  p_id :: int
  p_name :: string
  p_sku :: string
  p_price :: decimal

record database =
  stocks :: "stock_row list"
  products :: "product list"

text \<open>The unique key of \<^verbatim>\<open>stocks.product_id\<close> and the primary key of \<^verbatim>\<open>products.id\<close>.\<close>

definition unique_keys :: "database \<Rightarrow> bool" where
  "unique_keys d \<longleftrightarrow> distinct (map s_product_id (stocks d)) \<and> distinct (map p_id (products d))"

text \<open>
  \<^verbatim>\<open>UPDATE stocks SET quantity = :qty WHERE product_id = :pid\<close>: the new table and the
  row count of the statement (the number of rows the \<^verbatim>\<open>WHERE\<close> clause matches).
\<close>

definition sql_update_set :: "database \<Rightarrow> int \<Rightarrow> int \<Rightarrow> nat \<times> database" where
  "sql_update_set d pid qty =
     (length (filter (\<lambda>r. s_product_id r = pid) (stocks d)),
      d\<lparr>stocks := map (\<lambda>r. if s_product_id r = pid then r\<lparr>s_quantity := qty\<rparr> else r) (stocks d)\<rparr>)"

text \<open>
  \<^verbatim>\<open>UPDATE stocks SET quantity = quantity {operation} :qty WHERE product_id = :pid\<close>. The
  operation symbol is spliced into the statement text; \<^verbatim>\<open>+\<close> and \<^verbatim>\<open>-\<close>, the two symbols
  the module passes, are interpreted, any other text is answered as a statement error.
\<close>

definition sql_arith :: "string \<Rightarrow> (int \<Rightarrow> int \<Rightarrow> int) option" where
  "sql_arith operation =
     (if operation = ''+'' then Some (\<lambda>a b. a + b)
      else if operation = ''-'' then Some (\<lambda>a b. a - b)
      else None)"

definition sql_update_arith :: "database \<Rightarrow> string \<Rightarrow> int \<Rightarrow> int \<Rightarrow> error + nat \<times> database" where
  "sql_update_arith d operation pid qty =
     (case sql_arith operation of
        None \<Rightarrow> Inl ProgrammingError
      | Some f \<Rightarrow>
          Inr (length (filter (\<lambda>r. s_product_id r = pid) (stocks d)),
               d\<lparr>stocks := map (\<lambda>r. if s_product_id r = pid
                                     then r\<lparr>s_quantity := f (s_quantity r) qty\<rparr> else r) (stocks d)\<rparr>))"

text \<open>\<^verbatim>\<open>session.add(Stock(...)); session.flush()\<close>: the insert, refused on a duplicate key.\<close>

definition sql_insert_stock :: "database \<Rightarrow> int \<Rightarrow> int \<Rightarrow> error + database" where
  "sql_insert_stock d pid qty =
     (if pid \<in> set (map s_product_id (stocks d)) then Inl IntegrityError
      else Inr (d\<lparr>stocks := stocks d @ [\<lparr>s_product_id = pid, s_quantity = qty\<rparr>]\<rparr>))"

text \<open>\<^verbatim>\<open>session.query(Product).filter(Product.id == product_id).first()\<close>\<close>

definition query_product_first :: "database \<Rightarrow> int \<Rightarrow> product option" where
  "query_product_first d pid = find (\<lambda>p. p_id p = pid) (products d)"

text \<open>\<^verbatim>\<open>session.query(Product).filter(Product.id.in_(product_ids)).all()\<close>\<close>

definition query_products_in :: "database \<Rightarrow> int set \<Rightarrow> product list" where
  "query_products_in d ids = filter (\<lambda>p. p_id p \<in> ids) (products d)"

text \<open>
  \<^verbatim>\<open>SELECT s.product_id, s.quantity, p.name, p.sku, p.price FROM stocks s
  JOIN products p ON s.product_id = p.id\<close>
\<close>

definition select_stocks_join_products :: "database \<Rightarrow> (int \<times> int \<times> string \<times> string \<times> decimal) list" where
  "select_stocks_join_products d =
     concat (map (\<lambda>s. map (\<lambda>p. (s_product_id s, s_quantity s, p_name p, p_sku p, p_price p))
                          (filter (\<lambda>p. s_product_id s = p_id p) (products d)))
                 (stocks d))"

subsection \<open>The cache\<close>

text \<open>
  A Redis hash maps field names to stored text. A value is the text redis-py encodes it
  to: an \<^verbatim>\<open>int\<close> and a \<^verbatim>\<open>str\<close> give \<open>Text\<close>, a \<^verbatim>\<open>float\<close> gives \<open>FloatText\<close>
  (the text of a float, which is never an integer literal).
\<close>

datatype redis_value = Text string | FloatText decimal

type_synonym hash = "(string, redis_value) fmap"
type_synonym cache = "(string, hash) fmap"

definition stock_key :: "int \<Rightarrow> string" where
  "stock_key pid = ''stock:'' @ str_int pid"

text \<open>\<^verbatim>\<open>r.hset(name, mapping=...)\<close>: the fields of the mapping are set, the others stay.\<close>

definition hset :: "cache \<Rightarrow> string \<Rightarrow> (string \<times> redis_value) list \<Rightarrow> cache" where
  "hset c k mapping =
     fmupd k ((case fmlookup c k of None \<Rightarrow> fmempty | Some h \<Rightarrow> h) ++\<^sub>f fmap_of_list mapping) c"

text \<open>\<^verbatim>\<open>r.hget(name, key)\<close>\<close>

definition hget :: "cache \<Rightarrow> string \<Rightarrow> string \<Rightarrow> redis_value option" where
  "hget c k field = (case fmlookup c k of None \<Rightarrow> None | Some h \<Rightarrow> fmlookup h field)"

text \<open>\<^verbatim>\<open>r.scan_iter("stock:*")\<close>: the keys of the stock namespace.\<close>

definition scan_stock_keys :: "cache \<Rightarrow> string fset" where
  "scan_stock_keys c = ffilter (prefix ''stock:'') (fmdom c)"

text \<open>A pipeline queues \<^verbatim>\<open>hset\<close> commands; \<^verbatim>\<open>execute()\<close> applies them in order.\<close>

type_synonym pipeline = "(string \<times> (string \<times> redis_value) list) list"

definition pipeline_execute :: "cache \<Rightarrow> pipeline \<Rightarrow> cache" where
  "pipeline_execute c cmds = foldl (\<lambda>c' (k, mapping). hset c' k mapping) c cmds"

subsection \<open>Sessions, failures of the clients\<close>

text \<open>
  The calls into the two clients can fail for reasons outside the module (connection
  lost, statement refused). \<open>faults\<close> says which call sites raise and with what; the
  model is deterministic in it. The world is the committed store of record, the cache,
  and the trace of what happened to the sessions the module opened.
\<close>

datatype call_site =
    Session_execute
  | Session_flush
  | Session_commit
  | Session_query
  | Redis_conn
  | Redis_scan
  | Redis_hget
  | Redis_hset
  | Pipeline_execute

type_synonym faults = "call_site \<Rightarrow> error option"

definition no_faults :: faults where
  "no_faults = (\<lambda>_. None)"

datatype event = Session_opened | Committed | Rolled_back | Session_closed

record world =
  db :: database
  cache :: cache
  events :: "event list"

definition emit :: "event \<Rightarrow> world \<Rightarrow> world" where
  "emit e w = w\<lparr>events := events w @ [e]\<rparr>"

subsection \<open>\<^verbatim>\<open>set_stock_for_product\<close>\<close>

text \<open>
  The statements of the \<^verbatim>\<open>try\<close> block, lines 15 to 29: the update, the insert when the
  row count is zero, the commit. The pending table lives in the session until the commit
  writes it to the store.
\<close>

definition set_stock_write :: "faults \<Rightarrow> int \<Rightarrow> int \<Rightarrow> world \<Rightarrow> (error + string) \<times> world" where
  "set_stock_write F product_id quantity w =
     (case F Session_execute of
        Some e \<Rightarrow> (Inl e, w)
      | None \<Rightarrow>
          let (rowcount, d1) = sql_update_set (db w) product_id quantity;
              response_message = ''rows updated: '' @ str_nat rowcount;
              added =
                (if rowcount = 0 then
                   (case F Session_flush of
                      Some e \<Rightarrow> Inl e
                    | None \<Rightarrow>
                        (case sql_insert_stock d1 product_id quantity of
                           Inl e \<Rightarrow> Inl e
                         | Inr d2 \<Rightarrow> Inr (d2, ''rows added: '' @ str_int product_id)))
                 else Inr (d1, response_message))
          in case added of
               Inl e \<Rightarrow> (Inl e, w)
             | Inr (d2, message) \<Rightarrow>
                 (case F Session_commit of
                    Some e \<Rightarrow> (Inl e, w)
                  | None \<Rightarrow> (Inr message, emit Committed (w\<lparr>db := d2\<rparr>))))"

text \<open>Lines 31 to 42: the product lookup, the payload, the write to the cache.\<close>

definition redis_payload :: "int \<Rightarrow> product option \<Rightarrow> (string \<times> redis_value) list" where
  "redis_payload quantity product =
     (''quantity'', Text (str_int quantity)) #
     (case product of
        None \<Rightarrow> []
      | Some p \<Rightarrow> [(''name'', Text (p_name p)), (''sku'', Text (p_sku p)),
                   (''price'', FloatText (p_price p))])"

definition set_stock_mirror :: "faults \<Rightarrow> int \<Rightarrow> int \<Rightarrow> world \<Rightarrow> (error + unit) \<times> world" where
  "set_stock_mirror F product_id quantity w =
     (case F Session_query of
        Some e \<Rightarrow> (Inl e, w)
      | None \<Rightarrow>
          let product = query_product_first (db w) product_id;
              payload = redis_payload quantity product
          in case F Redis_conn of
               Some e \<Rightarrow> (Inl e, w)
             | None \<Rightarrow>
                 (case F Redis_hset of
                    Some e \<Rightarrow> (Inl e, w)
                  | None \<Rightarrow> (Inr (), w\<lparr>cache := hset (cache w) (stock_key product_id) payload\<rparr>)))"

text \<open>
  The whole function: the session is opened before the \<^verbatim>\<open>try\<close>; an exception of the
  body is answered by \<^verbatim>\<open>session.rollback()\<close> and raised again; \<^verbatim>\<open>finally\<close> closes the
  session.
\<close>

definition set_stock_for_product :: "faults \<Rightarrow> int \<Rightarrow> int \<Rightarrow> world \<Rightarrow> (error + string) \<times> world" where
  "set_stock_for_product F product_id quantity w =
     (let w0 = emit Session_opened w;
          (r, w2) =
            (case set_stock_write F product_id quantity w0 of
               (Inl e, w1) \<Rightarrow> (Inl e, w1)
             | (Inr message, w1) \<Rightarrow>
                 (case set_stock_mirror F product_id quantity w1 of
                    (Inl e, w2) \<Rightarrow> (Inl e, w2)
                  | (Inr _, w2) \<Rightarrow> (Inr message, w2)))
      in case r of
           Inl e \<Rightarrow> (Inl e, emit Session_closed (emit Rolled_back w2))
         | Inr message \<Rightarrow> (Inr message, emit Session_closed w2))"

subsection \<open>Order items\<close>

text \<open>
  An order item is an object with the attributes \<^verbatim>\<open>product_id\<close>, \<^verbatim>\<open>quantity\<close> and
  possibly \<^verbatim>\<open>unit_price\<close>, or a dictionary with these keys. The three arguments are the
  product id, the quantity and the unit price (\<open>None\<close> when absent or \<^verbatim>\<open>None\<close>).
\<close>

datatype order_item =
    Object_item int int "decimal option"
  | Mapping_item int int "decimal option"

text \<open>\<^verbatim>\<open>hasattr(item, 'product_id')\<close>\<close>

fun hasattr_product_id :: "order_item \<Rightarrow> bool" where
  "hasattr_product_id (Object_item _ _ _) = True"
| "hasattr_product_id (Mapping_item _ _ _) = False"

text \<open>
  \<^verbatim>\<open>(item.product_id, item.quantity)\<close>: a dictionary has no such attribute.
  \<^verbatim>\<open>(item['product_id'], item['quantity'])\<close>: an object is not subscriptable.
\<close>

fun attributes_of :: "order_item \<Rightarrow> error + int \<times> int" where
  "attributes_of (Object_item pid qty _) = Inr (pid, qty)"
| "attributes_of (Mapping_item _ _ _) = Inl AttributeError"

fun subscripts_of :: "order_item \<Rightarrow> error + int \<times> int" where
  "subscripts_of (Mapping_item pid qty _) = Inr (pid, qty)"
| "subscripts_of (Object_item _ _ _) = Inl TypeError"

subsection \<open>\<^verbatim>\<open>update_stock_mysql\<close>, \<^verbatim>\<open>check_out_items_from_stock\<close>, \<^verbatim>\<open>check_in_items_to_stock\<close>\<close>

text \<open>
  The loop of lines 52 to 66 over the caller's session (its pending tables). The test of
  line 53 is \<^verbatim>\<open>hasattr(order_items[0], 'product_id')\<close>: \<open>first_has_attr\<close> is its value,
  the same for every item. An exception leaves the loop; the statements already executed
  stay in the session, whose transaction is the caller's.
\<close>

fun update_stock_mysql_loop ::
  "faults \<Rightarrow> bool \<Rightarrow> string \<Rightarrow> order_item list \<Rightarrow> database \<Rightarrow> (error + unit) \<times> database" where
  "update_stock_mysql_loop F first_has_attr operation [] session = (Inr (), session)"
| "update_stock_mysql_loop F first_has_attr operation (item # rest) session =
     (case (if first_has_attr then attributes_of item else subscripts_of item) of
        Inl e \<Rightarrow> (Inl e, session)
      | Inr (pid, qty) \<Rightarrow>
          (case F Session_execute of
             Some e \<Rightarrow> (Inl e, session)
           | None \<Rightarrow>
               (case sql_update_arith session operation pid qty of
                  Inl e \<Rightarrow> (Inl e, session)
                | Inr (_, session') \<Rightarrow>
                    update_stock_mysql_loop F first_has_attr operation rest session')))"

definition update_stock_mysql ::
  "faults \<Rightarrow> database \<Rightarrow> order_item list \<Rightarrow> string \<Rightarrow> (error + unit) \<times> database" where
  "update_stock_mysql F session order_items operation =
     (case order_items of
        [] \<Rightarrow> (Inr (), session)
      | first # _ \<Rightarrow>
          update_stock_mysql_loop F (hasattr_product_id first) operation order_items session)"

definition check_out_items_from_stock ::
  "faults \<Rightarrow> database \<Rightarrow> order_item list \<Rightarrow> (error + unit) \<times> database" where
  "check_out_items_from_stock F session order_items = update_stock_mysql F session order_items ''-''"

definition check_in_items_to_stock ::
  "faults \<Rightarrow> database \<Rightarrow> order_item list \<Rightarrow> (error + unit) \<times> database" where
  "check_in_items_to_stock F session order_items = update_stock_mysql F session order_items ''+''"

subsection \<open>\<^verbatim>\<open>_populate_redis_from_mysql\<close>\<close>

definition stock_entry :: "int \<times> int \<times> string \<times> string \<times> decimal \<Rightarrow> string \<times> (string \<times> redis_value) list" where
  "stock_entry row =
     (case row of (product_id, quantity, name, sku, price) \<Rightarrow>
        (stock_key product_id,
         [(''quantity'', Text (str_int quantity)), (''name'', Text name), (''sku'', Text sku),
          (''price'', FloatText price)]))"

definition populate_redis_from_mysql :: "faults \<Rightarrow> world \<Rightarrow> (error + unit) \<times> world" where
  "populate_redis_from_mysql F w =
     (let w0 = emit Session_opened w;
          (r, w1) =
            (case F Session_execute of
               Some e \<Rightarrow> (Inl e, w0)
             | None \<Rightarrow>
                 let stocks = select_stocks_join_products (db w0) in
                 if length stocks = 0 then (Inr (), w0)
                 else
                   let pipeline = map stock_entry stocks in
                   (case F Pipeline_execute of
                      Some e \<Rightarrow> (Inl e, w0)
                    | None \<Rightarrow> (Inr (), w0\<lparr>cache := pipeline_execute (cache w0) pipeline\<rparr>)))
      in (r, emit Session_closed w1))"

subsection \<open>\<^verbatim>\<open>update_stock_redis\<close>\<close>

text \<open>Lines 89 to 97: both shapes give \<^verbatim>\<open>(product_id, quantity, unit_price)\<close>.\<close>

fun normalize_item :: "order_item \<Rightarrow> int \<times> int \<times> decimal option" where
  "normalize_item (Object_item product_id quantity unit_price) = (product_id, quantity, unit_price)"
| "normalize_item (Mapping_item product_id quantity unit_price) = (product_id, quantity, unit_price)"

text \<open>
  \<^verbatim>\<open>{product.id: product for product in products}\<close>: a later product replaces an
  earlier one with the same id.
\<close>

definition product_map_of :: "product list \<Rightarrow> int \<Rightarrow> product option" where
  "product_map_of ps = map_of (rev (map (\<lambda>p. (p_id p, p)) ps))"

text \<open>\<^verbatim>\<open>int(current_stock) if current_stock else 0\<close>: \<^verbatim>\<open>None\<close> and the empty text are falsy.\<close>

fun read_current_stock :: "redis_value option \<Rightarrow> error + int" where
  "read_current_stock None = Inr 0"
| "read_current_stock (Some (Text s)) = (if s = [] then Inr 0 else int_of_text s)"
| "read_current_stock (Some (FloatText _)) = Inl ValueError"

text \<open>Lines 114 to 128: the new quantity and the mapping of one item.\<close>

definition new_quantity_of :: "string \<Rightarrow> int \<Rightarrow> int \<Rightarrow> int" where
  "new_quantity_of operation current_stock quantity =
     (if operation = ''+'' then current_stock + quantity else current_stock - quantity)"

definition item_mapping ::
  "int \<Rightarrow> product option \<Rightarrow> decimal option \<Rightarrow> (string \<times> redis_value) list" where
  "item_mapping new_quantity product unit_price =
     (''quantity'', Text (str_int new_quantity)) #
     (case product of
        Some p \<Rightarrow> [(''name'', Text (p_name p)), (''sku'', Text (p_sku p)),
                   (''price'', FloatText (p_price p))]
      | None \<Rightarrow>
          (case unit_price of
             Some u \<Rightarrow> [(''price'', FloatText u)]
           | None \<Rightarrow> []))"

text \<open>
  The loop of lines 110 to 130: every \<^verbatim>\<open>hget\<close> reads the cache \<open>c\<close>, every
  \<^verbatim>\<open>pipeline.hset\<close> is queued behind the commands already queued.
\<close>

fun queue_items ::
  "faults \<Rightarrow> cache \<Rightarrow> (int \<Rightarrow> product option) \<Rightarrow> string \<Rightarrow> (int \<times> int \<times> decimal option) list \<Rightarrow>
   pipeline \<Rightarrow> error + pipeline" where
  "queue_items F c product_map operation [] pipeline = Inr pipeline"
| "queue_items F c product_map operation ((product_id, quantity, unit_price) # rest) pipeline =
     (case F Redis_hget of
        Some e \<Rightarrow> Inl e
      | None \<Rightarrow>
          (case read_current_stock (hget c (stock_key product_id) ''quantity'') of
             Inl e \<Rightarrow> Inl e
           | Inr current_stock \<Rightarrow>
               let new_quantity = new_quantity_of operation current_stock quantity;
                   mapping = item_mapping new_quantity (product_map product_id) unit_price
               in queue_items F c product_map operation rest
                    (pipeline @ [(stock_key product_id, mapping)])))"

text \<open>Lines 100 to 134, with the session already opened: the \<^verbatim>\<open>try\<close> block.\<close>

definition adjust_cache ::
  "faults \<Rightarrow> (int \<times> int \<times> decimal option) list \<Rightarrow> string \<Rightarrow> world \<Rightarrow> error + cache" where
  "adjust_cache F normalized_items operation w =
     (case F Session_query of
        Some e \<Rightarrow> Inl e
      | None \<Rightarrow>
          let product_ids = set (map fst normalized_items);
              found = query_products_in (db w) product_ids;
              product_map = product_map_of found
          in case queue_items F (cache w) product_map operation normalized_items [] of
               Inl e \<Rightarrow> Inl e
             | Inr pipeline \<Rightarrow>
                 (case F Pipeline_execute of
                    Some e \<Rightarrow> Inl e
                  | None \<Rightarrow> Inr (pipeline_execute (cache w) pipeline)))"

definition update_stock_redis :: "faults \<Rightarrow> order_item list \<Rightarrow> string \<Rightarrow> world \<Rightarrow> (error + unit) \<times> world" where
  "update_stock_redis F order_items operation w =
     (if order_items = [] then (Inr (), w)
      else
        case F Redis_conn of
          Some e \<Rightarrow> (Inl e, w)
        | None \<Rightarrow>
            (case F Redis_scan of
               Some e \<Rightarrow> (Inl e, w)
             | None \<Rightarrow>
                 (case (if scan_stock_keys (cache w) = {||} then populate_redis_from_mysql F w
                        else (Inr (), w)) of
                    (Inl e, w1) \<Rightarrow> (Inl e, w1)
                  | (Inr _, w1) \<Rightarrow>
                      let normalized_items = map normalize_item order_items;
                          w2 = emit Session_opened w1
                      in case adjust_cache F normalized_items operation w2 of
                           Inl e \<Rightarrow> (Inl e, emit Session_closed w2)
                         | Inr c \<Rightarrow> (Inr (), emit Session_closed (w2\<lparr>cache := c\<rparr>)))))"

subsection \<open>Vocabulary of the properties\<close>

text \<open>
  A sequence has a uniform shape when every item has the shape of the first one. The net
  quantity a sequence names for a product id, the sign of an operation symbol, and the
  table after every row has moved by the signed net quantity of its product id.
\<close>

definition uniform_shape :: "order_item list \<Rightarrow> bool" where
  "uniform_shape items =
     (case items of
        [] \<Rightarrow> True
      | first # _ \<Rightarrow> list_all (\<lambda>i. hasattr_product_id i = hasattr_product_id first) items)"

definition delta_for :: "int \<Rightarrow> order_item list \<Rightarrow> int" where
  "delta_for pid items =
     sum_list (map (\<lambda>i. fst (snd (normalize_item i))) (filter (\<lambda>i. fst (normalize_item i) = pid) items))"

definition operation_sign :: "string \<Rightarrow> int" where
  "operation_sign operation = (if operation = ''+'' then 1 else - 1)"

definition apply_deltas :: "int \<Rightarrow> order_item list \<Rightarrow> database \<Rightarrow> database" where
  "apply_deltas sign items d =
     d\<lparr>stocks := map (\<lambda>r. r\<lparr>s_quantity := s_quantity r + sign * delta_for (s_product_id r) items\<rparr>)
                     (stocks d)\<rparr>"

text \<open>
  A small world to run the functions on: one stock row, its product, an empty cache.
\<close>

definition example_world :: world where
  "example_world =
     \<lparr>db = \<lparr>stocks = [\<lparr>s_product_id = 1, s_quantity = 10\<rparr>],
             products = [\<lparr>p_id = 1, p_name = ''Widget'', p_sku = ''W1'', p_price = 999 / 100\<rparr>]\<rparr>,
      cache = fmempty,
      events = []\<rparr>"

text \<open>
  The quantity a cache entry stores for a product id, as the adjustment reads it: a
  missing entry or field and the empty text count as 0, the decimal text of \<open>n\<close> as \<open>n\<close>.
\<close>

definition stored_quantity :: "cache \<Rightarrow> int \<Rightarrow> int \<Rightarrow> bool" where
  "stored_quantity c pid n =
     (case hget c (stock_key pid) ''quantity'' of
        None \<Rightarrow> n = 0
      | Some v \<Rightarrow> (v = Text [] \<and> n = 0) \<or> v = Text (str_int n))"

text \<open>
  Following the specification (4.3, step 5): the write planned for one normalized item,
  from the quantity \<open>current\<close> read for its product id. The mapping holds the new quantity
  and, when the store has a product with the id, its name, sku and price; otherwise the
  unit price of the item when it has one; otherwise nothing more.
\<close>

definition spec_write ::
  "database \<Rightarrow> (int \<Rightarrow> int) \<Rightarrow> string \<Rightarrow> int \<times> int \<times> decimal option \<Rightarrow>
   string \<times> (string \<times> redis_value) list" where
  "spec_write d current operation item =
     (case item of (pid, qty, unit_price) \<Rightarrow>
        (stock_key pid,
         (''quantity'', Text (str_int (if operation = ''+'' then current pid + qty else current pid - qty))) #
         (case find (\<lambda>p. p_id p = pid) (products d) of
            Some p \<Rightarrow> [(''name'', Text (p_name p)), (''sku'', Text (p_sku p)),
                       (''price'', FloatText (p_price p))]
          | None \<Rightarrow> (case unit_price of Some u \<Rightarrow> [(''price'', FloatText u)] | None \<Rightarrow> []))))"

text \<open>The quantity of the last item of a sequence that names a product id.\<close>

fun last_quantity :: "(int \<times> int \<times> decimal option) list \<Rightarrow> int \<Rightarrow> int option" where
  "last_quantity [] pid = None"
| "last_quantity ((p, qty, _) # rest) pid =
     (case last_quantity rest pid of
        Some q \<Rightarrow> Some q
      | None \<Rightarrow> if p = pid then Some qty else None)"

text \<open>
  The cache as the reads of \<^verbatim>\<open>update_stock_redis\<close> find it: rehydrated when the scan of the
  stock namespace was empty, as it was before the call otherwise.
\<close>

definition cache_at_reads :: "world \<Rightarrow> cache" where
  "cache_at_reads w =
     (if scan_stock_keys (cache w) = {||}
      then pipeline_execute (cache w) (map stock_entry (select_stocks_join_products (db w)))
      else cache w)"

text \<open>
  Following the specification (4.4): the quantity rehydration writes for a product id is
  that of its stock row when a product matches the row; without such a pair no entry is
  written, which reads as 0.
\<close>

definition spec_rehydrated_quantity :: "database \<Rightarrow> int \<Rightarrow> int" where
  "spec_rehydrated_quantity d pid =
     (case find (\<lambda>s. s_product_id s = pid) (stocks d) of
        None \<Rightarrow> 0
      | Some s \<Rightarrow> if pid \<in> set (map p_id (products d)) then s_quantity s else 0)"

text \<open>The same world with the cache already holding the entry of product 1.\<close>

definition warm_world :: world where
  "warm_world =
     example_world\<lparr>cache :=
       fmap_of_list [(''stock:1'', fmap_of_list [(''quantity'', Text ''10''), (''name'', Text ''Widget''),
                                              (''sku'', Text ''W1''), (''price'', FloatText (999 / 100))])]\<rparr>"

text \<open>
  The first call site of a list that fails, with its error: the calls are made in order
  and the first exception leaves the \<^verbatim>\<open>try\<close> block.
\<close>

fun first_failure :: "faults \<Rightarrow> call_site list \<Rightarrow> (call_site \<times> error) option" where
  "first_failure F [] = None"
| "first_failure F (site # sites) =
     (case F site of Some e \<Rightarrow> Some (site, e) | None \<Rightarrow> first_failure F sites)"

text \<open>
  The client calls of \<^verbatim>\<open>set_stock_for_product\<close> in the order of the source: the update
  (line 15), the flush of the insert (line 27, reached only when the update matched no row),
  the commit (line 29), the product query (line 31), the cache connection (line 40) and the
  cache write (line 41).
\<close>

definition set_stock_call_sites :: "database \<Rightarrow> int \<Rightarrow> call_site list" where
  "set_stock_call_sites d product_id =
     Session_execute #
     (if product_id \<in> set (map s_product_id (stocks d)) then [] else [Session_flush]) @
     [Session_commit, Session_query, Redis_conn, Redis_hset]"

text \<open>
  The table after the update or, when no row matched, after the insert, and the message
  line 23 or line 28 builds.
\<close>

definition upserted :: "database \<Rightarrow> int \<Rightarrow> int \<Rightarrow> database" where
  "upserted d product_id quantity =
     (if product_id \<in> set (map s_product_id (stocks d))
      then snd (sql_update_set d product_id quantity)
      else d\<lparr>stocks := stocks d @ [\<lparr>s_product_id = product_id, s_quantity = quantity\<rparr>]\<rparr>)"

definition status_message :: "database \<Rightarrow> int \<Rightarrow> int \<Rightarrow> string" where
  "status_message d product_id quantity =
     (if product_id \<in> set (map s_product_id (stocks d))
      then ''rows updated: '' @ str_nat (fst (sql_update_set d product_id quantity))
      else ''rows added: '' @ str_int product_id)"

section \<open>Properties\<close>

subsection \<open>Text of integers and keys\<close>

lemma digit_val_digit_char: "n < 10 \<Longrightarrow> digit_val (digit_char n) = Some n"
proof -
  assume "n < 10"
  then have "n \<in> {0, 1, 2, 3, 4, 5, 6, 7, 8, 9}" by auto
  then show ?thesis
    by (auto simp: digit_val_def digit_char_def)
qed

lemma digits_value_append:
  "digits_value acc (xs @ ys) =
     (case digits_value acc xs of None \<Rightarrow> None | Some a \<Rightarrow> digits_value a ys)"
  by (induction xs arbitrary: acc) (auto split: option.splits)

lemma digits_value_digits: "digits_value 0 (digits n) = Some n"
proof (induction n rule: digits.induct)
  case (1 n)
  show ?case
  proof (cases "n < 10")
    case True
    then show ?thesis
      by (subst digits.simps) (simp add: digit_val_digit_char)
  next
    case False
    with 1 have "digits_value 0 (digits (n div 10)) = Some (n div 10)" by simp
    with False show ?thesis
      by (subst digits.simps) (simp add: digits_value_append digit_val_digit_char)
  qed
qed

lemma digits_not_Nil: "digits n \<noteq> []"
  by (subst digits.simps) simp

lemma nat_of_digits_digits: "nat_of_digits (digits n) = Some n"
  by (simp add: nat_of_digits_def digits_not_Nil digits_value_digits)

lemma digits_all_digits: "c \<in> set (digits n) \<Longrightarrow> digit_val c \<noteq> None"
proof (induction n rule: digits.induct)
  case (1 n)
  show ?case
  proof (cases "n < 10")
    case True
    with "1.prems" have "c = digit_char n" by (subst (asm) digits.simps) simp
    with True show ?thesis by (simp add: digit_val_digit_char)
  next
    case False
    with "1.prems" have "c \<in> set (digits (n div 10)) \<or> c = digit_char (n mod 10)"
      by (subst (asm) digits.simps) auto
    with 1 False show ?thesis by (auto simp: digit_val_digit_char)
  qed
qed

lemma plain_digits_all_digits:
  "ds \<noteq> [] \<Longrightarrow> \<forall>c \<in> set ds. digit_val c \<noteq> None \<Longrightarrow> plain_digits ds = Some ds"
proof (induction ds rule: plain_digits.induct)
  case 1
  then show ?case by simp
next
  case (2 c)
  then show ?case by simp
next
  case (3 c d cs)
  from "3.prems" have "digit_val d \<noteq> None" by simp
  then have "d \<noteq> CHR ''_''" by (auto simp: digit_val_def)
  with 3 show ?case by simp
qed

lemma nat_of_literal_digits: "nat_of_literal (digits n) = Some n"
  using plain_digits_all_digits [of "digits n"] digits_all_digits [of _ n]
  by (simp add: nat_of_literal_def digits_not_Nil nat_of_digits_digits)

lemma digit_not_space: "digit_val c \<noteq> None \<Longrightarrow> \<not> is_space c"
  by (auto simp: digit_val_def is_space_def split: if_splits)

lemma strip_no_space:
  assumes "\<forall>c \<in> set s. \<not> is_space c"
  shows "strip s = s"
proof -
  have "dropWhile is_space s = s"
    using assms by (cases s) auto
  moreover have "dropWhile is_space (rev s) = rev s"
    using assms by (cases "rev s") (auto simp: rev_eq_Cons_iff)
  ultimately show ?thesis by (simp add: strip_def)
qed

lemma strip_str_int: "strip (str_int i) = str_int i"
proof (rule strip_no_space, rule ballI)
  fix c assume "c \<in> set (str_int i)"
  then have "c = CHR ''-'' \<or> digit_val c \<noteq> None"
    using digits_all_digits by (auto simp: str_int_def split: if_splits)
  then show "\<not> is_space c"
    using digit_not_space by (auto simp: is_space_def)
qed

lemma int_of_text_str_int: "int_of_text (str_int i) = Inr i"
proof -
  obtain c cs where d: "digits (nat i) = c # cs"
    using digits_not_Nil [of "nat i"] by (cases "digits (nat i)") auto
  have "c \<in> set (digits (nat i))" by (simp add: d)
  then have c: "digit_val c \<noteq> None" by (rule digits_all_digits)
  have "c \<noteq> CHR ''-''" "c \<noteq> CHR ''+''"
    using c by (auto simp: digit_val_def)
  then show ?thesis
    using nat_of_literal_digits [of "nat i"] nat_of_literal_digits [of "nat (- i)"] d
    unfolding int_of_text_def strip_str_int
    by (auto simp: str_int_def)
qed

lemma str_int_not_Nil: "str_int i \<noteq> []"
  by (simp add: str_int_def digits_not_Nil)

lemma str_int_inject: "str_int a = str_int b \<longleftrightarrow> a = b"
proof
  assume "str_int a = str_int b"
  then have "int_of_text (str_int a) = int_of_text (str_int b)" by simp
  then show "a = b" by (simp add: int_of_text_str_int)
qed simp

lemma stock_key_inject: "stock_key a = stock_key b \<longleftrightarrow> a = b"
  by (simp add: stock_key_def str_int_inject)

lemma prefix_stock_key: "prefix ''stock:'' (stock_key pid)"
  by (simp add: stock_key_def)

lemma read_current_stock_str_int: "read_current_stock (Some (Text (str_int q))) = Inr q"
  by (simp add: str_int_not_Nil int_of_text_str_int)

subsection \<open>The batch statements on the store of record\<close>

lemma sql_update_arith_sign:
  "operation = ''+'' \<or> operation = ''-'' \<Longrightarrow>
   sql_update_arith d operation pid qty =
     Inr (length (filter (\<lambda>r. s_product_id r = pid) (stocks d)),
          d\<lparr>stocks := map (\<lambda>r. if s_product_id r = pid
                                then r\<lparr>s_quantity := s_quantity r + operation_sign operation * qty\<rparr>
                                else r) (stocks d)\<rparr>)"
  by (auto simp: sql_update_arith_def sql_arith_def operation_sign_def)

lemma sql_update_arith_absent:
  assumes "pid \<notin> set (map s_product_id (stocks d))" and "operation = ''+'' \<or> operation = ''-''"
  shows "sql_update_arith d operation pid qty = Inr (0, d)"
proof -
  have f: "filter (\<lambda>r. s_product_id r = pid) (stocks d) = []"
    using assms(1) by (auto simp: filter_empty_conv)
  have m: "map (\<lambda>r. if s_product_id r = pid then r\<lparr>s_quantity := g r\<rparr> else r) (stocks d) = stocks d" for g
    using assms(1) by (intro map_idI) auto
  show ?thesis
    by (simp add: sql_update_arith_sign [OF assms(2)] f m)
qed

lemma attributes_of_normalize:
  "hasattr_product_id i \<Longrightarrow>
   attributes_of i = Inr (fst (normalize_item i), fst (snd (normalize_item i)))"
  by (cases i) auto

lemma subscripts_of_normalize:
  "\<not> hasattr_product_id i \<Longrightarrow>
   subscripts_of i = Inr (fst (normalize_item i), fst (snd (normalize_item i)))"
  by (cases i) auto

lemma apply_deltas_Nil: "apply_deltas sign [] d = d"
  by (simp add: apply_deltas_def delta_for_def)

lemma apply_deltas_Cons:
  "apply_deltas sign items
     (d\<lparr>stocks := map (\<lambda>r. if s_product_id r = fst (normalize_item item)
                           then r\<lparr>s_quantity := s_quantity r + sign * fst (snd (normalize_item item))\<rparr>
                           else r) (stocks d)\<rparr>)
   = apply_deltas sign (item # items) d"
  by (simp add: apply_deltas_def delta_for_def comp_def algebra_simps)

lemma update_stock_mysql_loop_uniform:
  assumes "F Session_execute = None" and "operation = ''+'' \<or> operation = ''-''"
    and "list_all (\<lambda>i. hasattr_product_id i = b) items"
  shows "update_stock_mysql_loop F b operation items d =
           (Inr (), apply_deltas (operation_sign operation) items d)"
  using assms(3)
proof (induction items arbitrary: d)
  case Nil
  then show ?case by (simp add: apply_deltas_Nil)
next
  case (Cons item items)
  let ?pid = "fst (normalize_item item)" and ?qty = "fst (snd (normalize_item item))"
  let ?d1 = "d\<lparr>stocks := map (\<lambda>r. if s_product_id r = ?pid
                 then r\<lparr>s_quantity := s_quantity r + operation_sign operation * ?qty\<rparr>
                 else r) (stocks d)\<rparr>"
  from Cons.prems have n: "(if b then attributes_of item else subscripts_of item) = Inr (?pid, ?qty)"
    by (auto simp: attributes_of_normalize subscripts_of_normalize)
  from Cons.prems have rest: "list_all (\<lambda>i. hasattr_product_id i = b) items" by simp
  have "update_stock_mysql_loop F b operation (item # items) d =
        update_stock_mysql_loop F b operation items ?d1"
    using assms(1) by (simp add: n sql_update_arith_sign [OF assms(2)])
  also have "\<dots> = (Inr (), apply_deltas (operation_sign operation) items ?d1)"
    by (rule Cons.IH [OF rest])
  finally show ?case by (simp only: apply_deltas_Cons)
qed

lemma uniform_shape_Cons:
  "uniform_shape (first # rest) \<Longrightarrow>
   list_all (\<lambda>i. hasattr_product_id i = hasattr_product_id first) (first # rest)"
  by (simp add: uniform_shape_def)

lemma update_stock_mysql_uniform:
  assumes "F Session_execute = None" and "operation = ''+'' \<or> operation = ''-''"
    and "uniform_shape items"
  shows "update_stock_mysql F d items operation =
           (Inr (), apply_deltas (operation_sign operation) items d)"
proof (cases items)
  case Nil
  then show ?thesis by (simp add: update_stock_mysql_def apply_deltas_Nil)
next
  case (Cons first rest)
  with assms(3) have "list_all (\<lambda>i. hasattr_product_id i = hasattr_product_id first) items"
    using uniform_shape_Cons by simp
  then have "update_stock_mysql_loop F (hasattr_product_id first) operation items d =
           (Inr (), apply_deltas (operation_sign operation) items d)"
    using assms(1,2) by (intro update_stock_mysql_loop_uniform)
  with Cons show ?thesis
    by (simp add: update_stock_mysql_def)
qed

lemma apply_deltas_ids:
  "map s_product_id (stocks (apply_deltas sign items d)) = map s_product_id (stocks d)"
  by (simp add: apply_deltas_def comp_def)

lemma delta_for_absent:
  "pid \<notin> set (map (\<lambda>i. fst (normalize_item i)) items) \<Longrightarrow> delta_for pid items = 0"
proof -
  assume "pid \<notin> set (map (\<lambda>i. fst (normalize_item i)) items)"
  then have "filter (\<lambda>i. fst (normalize_item i) = pid) items = []"
    by (auto simp: filter_empty_conv)
  then show ?thesis by (simp add: delta_for_def)
qed

lemma apply_deltas_untouched:
  assumes "\<forall>i \<in> set items. fst (normalize_item i) \<notin> set (map s_product_id (stocks d))"
  shows "apply_deltas sign items d = d"
proof -
  have "delta_for (s_product_id r) items = 0" if "r \<in> set (stocks d)" for r
    using assms that by (intro delta_for_absent) force
  then have "map (\<lambda>r. r\<lparr>s_quantity := s_quantity r + sign * delta_for (s_product_id r) items\<rparr>)
               (stocks d) = stocks d"
    by (intro map_idI) simp
  then show ?thesis by (simp add: apply_deltas_def)
qed

lemma apply_deltas_inverse:
  "apply_deltas (- sign) items (apply_deltas sign items d) = d"
proof -
  have "map (\<lambda>r. r\<lparr>s_quantity := s_quantity r + - sign * delta_for (s_product_id r) items\<rparr>)
          (map (\<lambda>r. r\<lparr>s_quantity := s_quantity r + sign * delta_for (s_product_id r) items\<rparr>) (stocks d))
        = stocks d"
    unfolding map_map by (intro map_idI) simp
  then show ?thesis by (simp add: apply_deltas_def)
qed

text \<open>
  Claim C10. An item whose product id has no row in \<^verbatim>\<open>stocks\<close>: the statement matches no
  row and leaves the table as it is, the loop inserts nothing (the product ids of the table
  are the same afterwards, so a product id without a row still has none), and no error is
  raised. The sequence is taken of uniform shape, the operation symbol is one of the two the
  module passes, and the client does not fail.
\<close>

theorem update_stock_mysql_missing_record:
  assumes "uniform_shape items" and "operation = ''+'' \<or> operation = ''-''"
    and "F Session_execute = None"
  shows "\<exists>session'. update_stock_mysql F session items operation = (Inr (), session')
           \<and> map s_product_id (stocks session') = map s_product_id (stocks session)
           \<and> (\<forall>pid qty. pid \<notin> set (map s_product_id (stocks session)) \<longrightarrow>
                  pid \<notin> set (map s_product_id (stocks session'))
                  \<and> sql_update_arith session operation pid qty = Inr (0, session))
           \<and> ((\<forall>i \<in> set items. fst (normalize_item i) \<notin> set (map s_product_id (stocks session)))
                \<longrightarrow> session' = session)"
proof -
  let ?s = "apply_deltas (operation_sign operation) items session"
  have run: "update_stock_mysql F session items operation = (Inr (), ?s)"
    using assms by (intro update_stock_mysql_uniform)
  have ids: "map s_product_id (stocks ?s) = map s_product_id (stocks session)"
    by (rule apply_deltas_ids)
  have absent: "\<forall>pid qty. pid \<notin> set (map s_product_id (stocks session)) \<longrightarrow>
                  pid \<notin> set (map s_product_id (stocks ?s))
                  \<and> sql_update_arith session operation pid qty = Inr (0, session)"
  proof (intro allI impI conjI)
    fix pid qty
    assume a: "pid \<notin> set (map s_product_id (stocks session))"
    then show "pid \<notin> set (map s_product_id (stocks ?s))" unfolding ids .
    from a assms(2) show "sql_update_arith session operation pid qty = Inr (0, session)"
      by (rule sql_update_arith_absent)
  qed
  have same: "(\<forall>i \<in> set items. fst (normalize_item i) \<notin> set (map s_product_id (stocks session)))
                \<longrightarrow> ?s = session"
    by (intro impI apply_deltas_untouched)
  show ?thesis
    by (rule exI [of _ ?s]) (intro conjI run ids absent same)
qed

theorem update_stock_mysql_missing_record_witness:
  "\<exists>session'. update_stock_mysql no_faults \<lparr>stocks = [\<lparr>s_product_id = 1, s_quantity = 10\<rparr>], products = []\<rparr>
       [Mapping_item 7 3 None] ''-'' = (Inr (), session')
     \<and> session' = \<lparr>stocks = [\<lparr>s_product_id = 1, s_quantity = 10\<rparr>], products = []\<rparr>
     \<and> sql_update_arith \<lparr>stocks = [\<lparr>s_product_id = 1, s_quantity = 10\<rparr>], products = []\<rparr> ''-'' 7 3
         = Inr (0, \<lparr>stocks = [\<lparr>s_product_id = 1, s_quantity = 10\<rparr>], products = []\<rparr>)"
  using update_stock_mysql_missing_record [of "[Mapping_item 7 3 None]" "''-''" no_faults
      "\<lparr>stocks = [\<lparr>s_product_id = 1, s_quantity = 10\<rparr>], products = []\<rparr>"]
  by (auto simp: uniform_shape_def no_faults_def)
text \<open>
  Claim C4. The shape test of \<^verbatim>\<open>update_stock_mysql\<close> reads the first item of the sequence,
  not the current one: in a sequence of mixed shapes the first item of the other shape
  raises (\<^verbatim>\<open>AttributeError\<close> on a dictionary read by attribute, \<^verbatim>\<open>TypeError\<close> on an object
  read by subscript), after the statements of the items before it were issued. The
  normalization of \<^verbatim>\<open>update_stock_redis\<close> reads each item's own shape.
\<close>

theorem update_stock_mysql_mixed_shapes:
  "update_stock_mysql no_faults \<lparr>stocks = [\<lparr>s_product_id = 1, s_quantity = 10\<rparr>], products = []\<rparr>
     [Object_item 1 2 None, Mapping_item 1 3 None] ''+''
   = (Inl AttributeError, \<lparr>stocks = [\<lparr>s_product_id = 1, s_quantity = 12\<rparr>], products = []\<rparr>)
   \<and> update_stock_mysql no_faults \<lparr>stocks = [\<lparr>s_product_id = 1, s_quantity = 10\<rparr>], products = []\<rparr>
     [Mapping_item 1 3 None, Object_item 1 2 None] ''+''
   = (Inl TypeError, \<lparr>stocks = [\<lparr>s_product_id = 1, s_quantity = 13\<rparr>], products = []\<rparr>)
   \<and> map normalize_item [Object_item 1 2 None, Mapping_item 1 3 None] = [(1, 2, None), (1, 3, None)]"
  by (simp add: update_stock_mysql_def no_faults_def sql_update_arith_def sql_arith_def)

subsection \<open>The direct stock writer\<close>

lemma sql_update_set_absent:
  assumes "pid \<notin> set (map s_product_id (stocks d))"
  shows "sql_update_set d pid qty = (0, d)"
proof -
  have f: "filter (\<lambda>r. s_product_id r = pid) (stocks d) = []"
    using assms by (auto simp: filter_empty_conv)
  have m: "map (\<lambda>r. if s_product_id r = pid then r\<lparr>s_quantity := qty\<rparr> else r) (stocks d) = stocks d"
    using assms by (intro map_idI) auto
  show ?thesis by (simp add: sql_update_set_def f m)
qed

lemma sql_update_set_rowcount_zero:
  "fst (sql_update_set d pid qty) = 0 \<longleftrightarrow> pid \<notin> set (map s_product_id (stocks d))"
  by (auto simp: sql_update_set_def filter_empty_conv)

lemma distinct_filter_key:
  "distinct (map f xs) \<Longrightarrow> k \<in> set (map f xs) \<Longrightarrow> length (filter (\<lambda>r. f r = k) xs) = 1"
  by (induction xs) (auto simp: filter_empty_conv image_iff)

lemma sql_update_set_rowcount_one:
  "distinct (map s_product_id (stocks d)) \<Longrightarrow> pid \<in> set (map s_product_id (stocks d)) \<Longrightarrow>
   fst (sql_update_set d pid qty) = 1"
  by (simp add: sql_update_set_def distinct_filter_key)

lemma sql_update_set_ids:
  "map s_product_id (stocks (snd (sql_update_set d pid qty))) = map s_product_id (stocks d)"
  by (simp add: sql_update_set_def comp_def if_distrib cong: if_cong)

lemma sql_update_set_products: "products (snd (sql_update_set d pid qty)) = products d"
  by (simp add: sql_update_set_def)

lemma stock_row_set_quantity:
  "s_product_id r = pid \<Longrightarrow> r\<lparr>s_quantity := qty\<rparr> = \<lparr>s_product_id = pid, s_quantity = qty\<rparr>"
  by (cases r) simp

lemma filter_key_map_update:
  "filter (\<lambda>r. s_product_id r = pid)
     (map (\<lambda>r. if s_product_id r = pid then r\<lparr>s_quantity := qty\<rparr> else r) xs)
   = map (\<lambda>r. \<lparr>s_product_id = pid, s_quantity = qty\<rparr>) (filter (\<lambda>r. s_product_id r = pid) xs)"
  by (induction xs) (simp_all add: stock_row_set_quantity)

lemma filter_updated_row:
  assumes "distinct (map s_product_id xs)" and "pid \<in> set (map s_product_id xs)"
  shows "filter (\<lambda>r. s_product_id r = pid)
     (map (\<lambda>r. if s_product_id r = pid then r\<lparr>s_quantity := qty\<rparr> else r) xs)
   = [\<lparr>s_product_id = pid, s_quantity = qty\<rparr>]"
proof -
  have "length (filter (\<lambda>r. s_product_id r = pid) xs) = 1"
    using assms by (rule distinct_filter_key)
  then obtain r where "filter (\<lambda>r. s_product_id r = pid) xs = [r]"
    by (cases "filter (\<lambda>r. s_product_id r = pid) xs") auto
  then show ?thesis by (simp add: filter_key_map_update)
qed

lemma filter_other_rows:
  "filter (\<lambda>r. s_product_id r \<noteq> pid)
     (map (\<lambda>r. if s_product_id r = pid then r\<lparr>s_quantity := qty\<rparr> else r) xs)
   = filter (\<lambda>r. s_product_id r \<noteq> pid) xs"
  by (induction xs) auto

lemma set_stock_write_existing:
  assumes "distinct (map s_product_id (stocks (db w)))"
    and "pid \<in> set (map s_product_id (stocks (db w)))"
  shows "set_stock_write no_faults pid qty w =
           (Inr ''rows updated: 1'', emit Committed (w\<lparr>db := snd (sql_update_set (db w) pid qty)\<rparr>))"
proof -
  obtain n d1 where u: "sql_update_set (db w) pid qty = (n, d1)" by (cases "sql_update_set (db w) pid qty")
  with sql_update_set_rowcount_one [OF assms, of qty] have n: "n = 1" by simp
  have "str_nat 1 = ''1''" by (simp add: str_nat_def digits.simps digit_char_def)
  with u n show ?thesis
    by (simp add: set_stock_write_def no_faults_def)
qed

lemma set_stock_write_absent:
  assumes "pid \<notin> set (map s_product_id (stocks (db w)))"
  shows "set_stock_write no_faults pid qty w =
           (Inr (''rows added: '' @ str_int pid),
            emit Committed (w\<lparr>db := (db w)\<lparr>stocks := stocks (db w) @ [\<lparr>s_product_id = pid, s_quantity = qty\<rparr>]\<rparr>\<rparr>))"
  using assms
  by (simp add: set_stock_write_def no_faults_def sql_update_set_absent [OF assms] sql_insert_stock_def)

lemma set_stock_mirror_no_faults:
  "set_stock_mirror no_faults pid qty w =
     (Inr (), w\<lparr>cache := hset (cache w) (stock_key pid)
                   (redis_payload qty (query_product_first (db w) pid))\<rparr>)"
  by (simp add: set_stock_mirror_def no_faults_def)

lemma set_stock_for_product_no_faults:
  assumes "set_stock_write no_faults pid qty w0 = (Inr message, w1)" and "w0 = emit Session_opened w"
  shows "set_stock_for_product no_faults pid qty w =
           (Inr message,
            emit Session_closed (w1\<lparr>cache := hset (cache w1) (stock_key pid)
                   (redis_payload qty (query_product_first (db w1) pid))\<rparr>))"
  using assms by (simp add: set_stock_for_product_def set_stock_mirror_no_faults)

lemma db_emit [simp]: "db (emit e w) = db w"
  and cache_emit [simp]: "cache (emit e w) = cache w"
  and events_emit [simp]: "events (emit e w) = events w @ [e]"
  by (simp_all add: emit_def)

lemma find_None_absent: "k \<notin> set (map f xs) \<Longrightarrow> find (\<lambda>p. f p = k) xs = None"
  by (induction xs) auto

text \<open>
  Claim C3. On a store whose keys are unique and with clients that do not fail,
  \<^verbatim>\<open>set_stock_for_product\<close> returns a message; the row count of its update is 1 when the
  product id has a row and 0 when it has none; the table afterwards is the updated one in
  the first case and the old one with the new row appended in the second (the insert
  happens exactly when the row count is zero); exactly one row has the product id, with the
  written quantity; the other rows are as before; the message says which of the two
  happened; the keys are still unique.
\<close>

theorem set_stock_for_product_upsert:
  assumes "unique_keys (db w)"
  shows "\<exists>message w'.
           set_stock_for_product no_faults product_id quantity w = (Inr message, w')
         \<and> fst (sql_update_set (db w) product_id quantity)
             = (if product_id \<in> set (map s_product_id (stocks (db w))) then 1 else 0)
         \<and> stocks (db w')
             = (if product_id \<in> set (map s_product_id (stocks (db w)))
                then stocks (snd (sql_update_set (db w) product_id quantity))
                else stocks (db w) @ [\<lparr>s_product_id = product_id, s_quantity = quantity\<rparr>])
         \<and> filter (\<lambda>r. s_product_id r = product_id) (stocks (db w'))
             = [\<lparr>s_product_id = product_id, s_quantity = quantity\<rparr>]
         \<and> filter (\<lambda>r. s_product_id r \<noteq> product_id) (stocks (db w'))
             = filter (\<lambda>r. s_product_id r \<noteq> product_id) (stocks (db w))
         \<and> message
             = (if product_id \<in> set (map s_product_id (stocks (db w)))
                then ''rows updated: 1'' else ''rows added: '' @ str_int product_id)
         \<and> unique_keys (db w')"
proof (cases "product_id \<in> set (map s_product_id (stocks (db w)))")
  case True
  let ?w0 = "emit Session_opened w"
  let ?d = "snd (sql_update_set (db w) product_id quantity)"
  from assms have dist: "distinct (map s_product_id (stocks (db w)))"
    by (simp add: unique_keys_def)
  have "set_stock_write no_faults product_id quantity ?w0 =
          (Inr ''rows updated: 1'', emit Committed (?w0\<lparr>db := snd (sql_update_set (db ?w0) product_id quantity)\<rparr>))"
    using dist True by (intro set_stock_write_existing) simp_all
  from set_stock_for_product_no_faults [OF this refl]
  obtain w' where run: "set_stock_for_product no_faults product_id quantity w = (Inr ''rows updated: 1'', w')"
    and d: "db w' = ?d"
    by simp
  have one: "filter (\<lambda>r. s_product_id r = product_id) (stocks ?d)
        = [\<lparr>s_product_id = product_id, s_quantity = quantity\<rparr>]"
    using filter_updated_row [OF dist True] by (simp add: sql_update_set_def)
  have others: "filter (\<lambda>r. s_product_id r \<noteq> product_id) (stocks ?d)
        = filter (\<lambda>r. s_product_id r \<noteq> product_id) (stocks (db w))"
    by (simp add: sql_update_set_def filter_other_rows)
  have uk: "unique_keys ?d"
    using assms by (simp add: unique_keys_def sql_update_set_ids sql_update_set_products)
  show ?thesis
    using run True one others uk sql_update_set_rowcount_one [OF dist True, of quantity]
    by (simp add: d)
next
  case False
  let ?w0 = "emit Session_opened w"
  let ?d = "(db w)\<lparr>stocks := stocks (db w) @ [\<lparr>s_product_id = product_id, s_quantity = quantity\<rparr>]\<rparr>"
  have "set_stock_write no_faults product_id quantity ?w0 =
          (Inr (''rows added: '' @ str_int product_id),
           emit Committed (?w0\<lparr>db := (db ?w0)\<lparr>stocks := stocks (db ?w0) @ [\<lparr>s_product_id = product_id, s_quantity = quantity\<rparr>]\<rparr>\<rparr>))"
    using False by (intro set_stock_write_absent) simp
  from set_stock_for_product_no_faults [OF this refl]
  obtain w' where run: "set_stock_for_product no_faults product_id quantity w
        = (Inr (''rows added: '' @ str_int product_id), w')"
    and d: "db w' = ?d"
    by simp
  have none: "filter (\<lambda>r. s_product_id r = product_id) (stocks (db w)) = []"
    using False by (auto simp: filter_empty_conv)
  have others: "filter (\<lambda>r. s_product_id r \<noteq> product_id) (stocks (db w)) = stocks (db w)"
    using False by (auto simp: filter_id_conv)
  have uk: "unique_keys ?d"
    using assms False by (simp add: unique_keys_def)
  have zero: "fst (sql_update_set (db w) product_id quantity) = 0"
    using False by (simp add: sql_update_set_rowcount_zero)
  show ?thesis
    using run False none others uk zero
    by (simp add: d)
qed

theorem set_stock_for_product_upsert_witness:
  "unique_keys (db example_world)
   \<and> (\<exists>message w'. set_stock_for_product no_faults 1 7 example_world = (Inr message, w')
         \<and> stocks (db w') = [\<lparr>s_product_id = 1, s_quantity = 7\<rparr>]
         \<and> message = ''rows updated: 1'')"
  using set_stock_for_product_upsert [of example_world 1 7]
  by (auto simp: example_world_def unique_keys_def sql_update_set_def)

lemma first_failure_append:
  "first_failure F (xs @ ys) =
     (case first_failure F xs of Some x \<Rightarrow> Some x | None \<Rightarrow> first_failure F ys)"
  by (induction xs) (auto split: option.splits)

lemma first_failure_Some:
  "first_failure F xs = Some (site, e) \<Longrightarrow> site \<in> set xs \<and> F site = Some e"
  by (induction xs) (auto split: option.splits)

lemma products_upserted: "products (upserted d pid qty) = products d"
  by (simp add: upserted_def sql_update_set_def)

lemma set_stock_write_eq:
  "set_stock_write F pid qty w =
     (case first_failure F (Session_execute #
             (if pid \<in> set (map s_product_id (stocks (db w))) then [] else [Session_flush]) @
             [Session_commit]) of
        Some (site, e) \<Rightarrow> (Inl e, w)
      | None \<Rightarrow> (Inr (status_message (db w) pid qty),
                 emit Committed (w\<lparr>db := upserted (db w) pid qty\<rparr>)))"
proof -
  obtain n d1 where u: "sql_update_set (db w) pid qty = (n, d1)"
    by (cases "sql_update_set (db w) pid qty")
  show ?thesis
  proof (cases "pid \<in> set (map s_product_id (stocks (db w)))")
    case True
    then have "n \<noteq> 0"
      using sql_update_set_rowcount_zero [of "db w" pid qty] u by simp
    with True u show ?thesis
      by (simp add: set_stock_write_def upserted_def status_message_def split: option.splits)
  next
    case False
    then have "sql_update_set (db w) pid qty = (0, db w)" by (rule sql_update_set_absent)
    with False show ?thesis
      by (simp add: set_stock_write_def upserted_def status_message_def sql_insert_stock_def
          split: option.splits)
  qed
qed

lemma set_stock_mirror_eq:
  "set_stock_mirror F pid qty w =
     (case first_failure F [Session_query, Redis_conn, Redis_hset] of
        Some (site, e) \<Rightarrow> (Inl e, w)
      | None \<Rightarrow> (Inr (), w\<lparr>cache := hset (cache w) (stock_key pid)
                                  (redis_payload qty (query_product_first (db w) pid))\<rparr>))"
  by (simp add: set_stock_mirror_def split: option.splits)

text \<open>
  Claim C7. Every exit of \<^verbatim>\<open>set_stock_for_product\<close>, for every way its client calls may
  fail. When one of the calls it reaches fails, the function fails, with the error of the
  first such call and no other, after \<^verbatim>\<open>session.rollback()\<close> and then
  \<^verbatim>\<open>session.close()\<close>; the cache is untouched; the store is untouched when the failing call
  is the update, the flush or the commit, and holds the committed write when it comes after
  the commit (the rollback then finds nothing pending). When no call fails the function
  returns its message, with the store and the cache written and the session closed. The
  rollback and the close themselves are taken not to fail.
\<close>

theorem set_stock_for_product_exits:
  "\<exists>r w'. set_stock_for_product F product_id quantity w = (r, w')
     \<and> (case first_failure F (set_stock_call_sites (db w) product_id) of
          None \<Rightarrow>
            r = Inr (status_message (db w) product_id quantity)
            \<and> db w' = upserted (db w) product_id quantity
            \<and> cache w' = hset (cache w) (stock_key product_id)
                           (redis_payload quantity (query_product_first (db w) product_id))
            \<and> events w' = events w @ [Session_opened, Committed, Session_closed]
        | Some (site, e) \<Rightarrow>
            r = Inl e \<and> F site = Some e \<and> cache w' = cache w
            \<and> (if site \<in> set [Session_execute, Session_flush, Session_commit]
               then events w' = events w @ [Session_opened, Rolled_back, Session_closed]
                    \<and> db w' = db w
               else events w' = events w @ [Session_opened, Committed, Rolled_back, Session_closed]
                    \<and> db w' = upserted (db w) product_id quantity))"
proof -
  let ?w0 = "emit Session_opened w"
  let ?ws = "Session_execute #
             (if product_id \<in> set (map s_product_id (stocks (db w))) then [] else [Session_flush]) @
             [Session_commit]"
  let ?ms = "[Session_query, Redis_conn, Redis_hset]"
  let ?w1 = "emit Committed (?w0\<lparr>db := upserted (db w) product_id quantity\<rparr>)"
  have sites: "set_stock_call_sites (db w) product_id = ?ws @ ?ms"
    by (simp add: set_stock_call_sites_def)
  have wr: "set_stock_write F product_id quantity ?w0 =
     (case first_failure F ?ws of
        Some (site, e) \<Rightarrow> (Inl e, ?w0)
      | None \<Rightarrow> (Inr (status_message (db w) product_id quantity), ?w1))"
    unfolding set_stock_write_eq by (simp cong: option.case_cong)
  have mr: "set_stock_mirror F product_id quantity ?w1 =
     (case first_failure F ?ms of
        Some (site, e) \<Rightarrow> (Inl e, ?w1)
      | None \<Rightarrow> (Inr (), ?w1\<lparr>cache := hset (cache w) (stock_key product_id)
                                  (redis_payload quantity (query_product_first (db w) product_id))\<rparr>))"
    unfolding set_stock_mirror_eq
    by (simp add: query_product_first_def products_upserted cong: option.case_cong)
  show ?thesis
  proof (cases "first_failure F ?ws")
    case (Some x)
    obtain site e where x: "x = (site, e)" by (cases x)
    from Some x have mem: "site \<in> set ?ws" and f: "F site = Some e"
      using first_failure_Some [of F ?ws site e] by simp_all
    from mem have pre: "site \<in> set [Session_execute, Session_flush, Session_commit]"
      by (auto split: if_splits)
    have ff: "first_failure F (set_stock_call_sites (db w) product_id) = Some (site, e)"
      unfolding sites first_failure_append using Some x by simp
    have "set_stock_for_product F product_id quantity w =
            (Inl e, emit Session_closed (emit Rolled_back ?w0))"
      using Some x by (simp add: set_stock_for_product_def wr)
    with pre f show ?thesis unfolding ff by simp
  next
    case None
    note write_ok = this
    show ?thesis
    proof (cases "first_failure F ?ms")
      case (Some x)
      obtain site e where x: "x = (site, e)" by (cases x)
      from Some x have mem: "site \<in> set ?ms" and f: "F site = Some e"
        using first_failure_Some [of F ?ms site e] by simp_all
      from mem have post: "site \<notin> set [Session_execute, Session_flush, Session_commit]"
        by auto
      have ff: "first_failure F (set_stock_call_sites (db w) product_id) = Some (site, e)"
        unfolding sites first_failure_append using write_ok Some x by simp
      have "set_stock_for_product F product_id quantity w =
              (Inl e, emit Session_closed (emit Rolled_back ?w1))"
        using write_ok Some x by (simp add: set_stock_for_product_def wr mr)
      with post f show ?thesis unfolding ff by simp
    next
      case None
      have ff: "first_failure F (set_stock_call_sites (db w) product_id) = None"
        unfolding sites first_failure_append using write_ok None by simp
      have "set_stock_for_product F product_id quantity w =
              (Inr (status_message (db w) product_id quantity),
               emit Session_closed (?w1\<lparr>cache := hset (cache w) (stock_key product_id)
                                  (redis_payload quantity (query_product_first (db w) product_id))\<rparr>))"
        using write_ok None by (simp add: set_stock_for_product_def wr mr)
      then show ?thesis unfolding ff by simp
    qed
  qed
qed

theorem set_stock_for_product_exits_witness:
  "set_stock_for_product (no_faults(Session_commit := Some (ClientError ''connection lost''))) 1 7 example_world
     = (Inl (ClientError ''connection lost''),
        example_world\<lparr>events := [Session_opened, Rolled_back, Session_closed]\<rparr>)
   \<and> set_stock_for_product (no_faults(Redis_hset := Some (ClientError ''connection lost''))) 1 7 example_world
     = (Inl (ClientError ''connection lost''),
        example_world\<lparr>db := (db example_world)\<lparr>stocks := [\<lparr>s_product_id = 1, s_quantity = 7\<rparr>]\<rparr>,
                      events := [Session_opened, Committed, Rolled_back, Session_closed]\<rparr>)
   \<and> fst (set_stock_for_product
        (no_faults(Session_commit := Some (ClientError ''commit refused''),
                   Redis_hset := Some (ClientError ''connection lost''))) 1 7 example_world)
     = Inl (ClientError ''commit refused'')
   \<and> fst (set_stock_for_product
        (no_faults(Session_query := Some (ClientError ''query refused''))) 1 7 example_world)
     = Inl (ClientError ''query refused'')"
proof -
  let ?F = "no_faults(Session_commit := Some (ClientError ''commit refused''),
                   Redis_hset := Some (ClientError ''connection lost''))"
  let ?G = "no_faults(Session_query := Some (ClientError ''query refused''))"
  have "first_failure ?F (set_stock_call_sites (db example_world) 1)
          = Some (Session_commit, ClientError ''commit refused'')"
    by (simp add: set_stock_call_sites_def example_world_def no_faults_def)
  with set_stock_for_product_exits [of ?F 1 7 example_world]
  have both: "fst (set_stock_for_product ?F 1 7 example_world) = Inl (ClientError ''commit refused'')"
    by auto
  have "first_failure ?G (set_stock_call_sites (db example_world) 1)
          = Some (Session_query, ClientError ''query refused'')"
    by (simp add: set_stock_call_sites_def example_world_def no_faults_def)
  with set_stock_for_product_exits [of ?G 1 7 example_world]
  have query: "fst (set_stock_for_product ?G 1 7 example_world) = Inl (ClientError ''query refused'')"
    by auto
  have "set_stock_for_product (no_faults(Session_commit := Some (ClientError ''connection lost''))) 1 7 example_world
     = (Inl (ClientError ''connection lost''),
        example_world\<lparr>events := [Session_opened, Rolled_back, Session_closed]\<rparr>)"
    and "set_stock_for_product (no_faults(Redis_hset := Some (ClientError ''connection lost''))) 1 7 example_world
     = (Inl (ClientError ''connection lost''),
        example_world\<lparr>db := (db example_world)\<lparr>stocks := [\<lparr>s_product_id = 1, s_quantity = 7\<rparr>]\<rparr>,
                      events := [Session_opened, Committed, Rolled_back, Session_closed]\<rparr>)"
    by (simp_all add: set_stock_for_product_def set_stock_write_def set_stock_mirror_def no_faults_def
        example_world_def emit_def sql_update_set_def)
  with both query show ?thesis by simp
qed

text \<open>
  Claim C9, as stated: no product with id 5 exists. That does not decide the message: a
  stock row for id 5 may exist without a product (the call of the scenario itself leaves
  one behind), and then the update matches it and the message is "rows updated: 1".
\<close>

theorem set_stock_for_product_stale_record:
  "5 \<notin> set (map p_id (products \<lparr>stocks = [\<lparr>s_product_id = 5, s_quantity = 3\<rparr>], products = []\<rparr>))
   \<and> fst (set_stock_for_product no_faults 5 0
        \<lparr>db = \<lparr>stocks = [\<lparr>s_product_id = 5, s_quantity = 3\<rparr>], products = []\<rparr>,
         cache = fmempty, events = []\<rparr>) = Inr ''rows updated: 1''
   \<and> fst (set_stock_for_product no_faults 5 0
        \<lparr>db = \<lparr>stocks = [\<lparr>s_product_id = 5, s_quantity = 3\<rparr>], products = []\<rparr>,
         cache = fmempty, events = []\<rparr>) \<noteq> Inr ''rows added: 5''"
  by (simp add: set_stock_for_product_def set_stock_write_def set_stock_mirror_def no_faults_def
      emit_def sql_update_set_def str_nat_def digits.simps digit_char_def)

text \<open>
  Claim C9, amended: neither a product nor a stock row with id 5 exists. Then the message
  is "rows added: 5", the mapping written to \<^verbatim>\<open>stock:5\<close> holds the field \<^verbatim>\<open>quantity\<close> with
  value 0 and nothing else (the fields \<^verbatim>\<open>name\<close>, \<^verbatim>\<open>sku\<close> and \<^verbatim>\<open>price\<close> of the entry are
  what they were, absent when there was no entry), and the store has exactly one row for
  id 5, with quantity 0.
\<close>

theorem set_stock_for_product_new_product:
  assumes "5 \<notin> set (map p_id (products (db w)))"
    and "5 \<notin> set (map s_product_id (stocks (db w)))"
  shows "\<exists>w'. set_stock_for_product no_faults 5 0 w = (Inr ''rows added: 5'', w')
           \<and> cache w' = hset (cache w) ''stock:5'' [(''quantity'', Text ''0'')]
           \<and> hget (cache w') ''stock:5'' ''quantity'' = Some (Text ''0'')
           \<and> hget (cache w') ''stock:5'' ''name'' = hget (cache w) ''stock:5'' ''name''
           \<and> hget (cache w') ''stock:5'' ''sku'' = hget (cache w) ''stock:5'' ''sku''
           \<and> hget (cache w') ''stock:5'' ''price'' = hget (cache w) ''stock:5'' ''price''
           \<and> filter (\<lambda>r. s_product_id r = 5) (stocks (db w')) = [\<lparr>s_product_id = 5, s_quantity = 0\<rparr>]"
proof -
  let ?w0 = "emit Session_opened w"
  let ?w' = "emit Session_closed
        ((emit Committed (?w0\<lparr>db := (db ?w0)\<lparr>stocks := stocks (db ?w0) @ [\<lparr>s_product_id = 5, s_quantity = 0\<rparr>]\<rparr>\<rparr>))
           \<lparr>cache := hset (cache w) ''stock:5'' [(''quantity'', Text ''0'')]\<rparr>)"
  have k: "stock_key 5 = ''stock:5''" and z: "str_int 0 = ''0''" and f: "str_int 5 = ''5''"
    by (simp_all add: stock_key_def str_int_def digits.simps digit_char_def)
  have q: "query_product_first d 5 = None" if "products d = products (db w)" for d
    using assms(1) that by (simp add: query_product_first_def find_None_absent)
  have "set_stock_write no_faults 5 0 ?w0 =
          (Inr (''rows added: '' @ str_int 5),
           emit Committed (?w0\<lparr>db := (db ?w0)\<lparr>stocks := stocks (db ?w0) @ [\<lparr>s_product_id = 5, s_quantity = 0\<rparr>]\<rparr>\<rparr>))"
    using assms(2) by (intro set_stock_write_absent) simp
  from set_stock_for_product_no_faults [OF this refl]
  have run: "set_stock_for_product no_faults 5 0 w = (Inr ''rows added: 5'', ?w')"
    by (simp add: k z f q redis_payload_def)
  have none: "filter (\<lambda>r. s_product_id r = 5) (stocks (db w)) = []"
    using assms(2) by (auto simp: filter_empty_conv)
  have "cache ?w' = hset (cache w) ''stock:5'' [(''quantity'', Text ''0'')]"
    by simp
  moreover have "hget (hset (cache w) ''stock:5'' [(''quantity'', Text ''0'')]) ''stock:5'' ''quantity''
      = Some (Text ''0'')"
    by (simp add: hget_def hset_def)
  moreover have "hget (hset (cache w) ''stock:5'' [(''quantity'', Text ''0'')]) ''stock:5'' field
      = hget (cache w) ''stock:5'' field" if "field \<noteq> ''quantity''" for field
    using that by (simp add: hget_def hset_def split: option.splits)
  moreover have "filter (\<lambda>r. s_product_id r = 5) (stocks (db ?w')) = [\<lparr>s_product_id = 5, s_quantity = 0\<rparr>]"
    by (simp add: none)
  ultimately show ?thesis
    by (intro exI [of _ ?w']) (simp add: run)
qed

theorem set_stock_for_product_new_product_witness:
  "\<exists>w'. set_stock_for_product no_faults 5 0 example_world = (Inr ''rows added: 5'', w')
     \<and> fmlookup (cache w') ''stock:5'' = Some (fmap_of_list [(''quantity'', Text ''0'')])
     \<and> stocks (db w') = [\<lparr>s_product_id = 1, s_quantity = 10\<rparr>, \<lparr>s_product_id = 5, s_quantity = 0\<rparr>]"
  using set_stock_for_product_new_product [of example_world]
  by (simp add: set_stock_for_product_def set_stock_write_def set_stock_mirror_def no_faults_def
      emit_def sql_update_set_def sql_insert_stock_def example_world_def query_product_first_def
      redis_payload_def hset_def stock_key_def str_int_def digits.simps digit_char_def)

subsection \<open>The cache primitives\<close>

lemma fmlookup_add_of_list:
  "fmlookup (h ++\<^sub>f fmap_of_list m) field =
     (case map_of m field of Some v \<Rightarrow> Some v | None \<Rightarrow> fmlookup h field)"
proof (cases "map_of m field")
  case None
  then have "fmlookup (fmap_of_list m) field = None" by (simp add: fmlookup_of_list)
  then have "field |\<notin>| fmdom (fmap_of_list m)" by (rule fmdom_notI)
  with None show ?thesis by (simp del: fmdom_fmap_of_list)
next
  case (Some v)
  then have l: "fmlookup (fmap_of_list m) field = Some v" by (simp add: fmlookup_of_list)
  then have "field |\<in>| fmdom (fmap_of_list m)" by (rule fmdomI)
  with Some l show ?thesis by (simp del: fmdom_fmap_of_list)
qed

lemma hget_hset:
  "hget (hset c k m) k' field =
     (if k' = k then (case map_of m field of Some v \<Rightarrow> Some v | None \<Rightarrow> hget c k field)
      else hget c k' field)"
  by (simp add: hget_def hset_def fmlookup_add_of_list del: fmlookup_add split: option.splits)

lemma fmlookup_hset:
  "fmlookup (hset c k m) k' =
     (if k' = k then Some ((case fmlookup c k of None \<Rightarrow> fmempty | Some h \<Rightarrow> h) ++\<^sub>f fmap_of_list m)
      else fmlookup c k')"
  by (simp add: hset_def)

lemma fmdom_hset: "fmdom (hset c k m) = finsert k (fmdom c)"
  by (simp add: hset_def)

lemma pipeline_execute_Nil: "pipeline_execute c [] = c"
  by (simp add: pipeline_execute_def)

lemma pipeline_execute_Cons: "pipeline_execute c ((k, m) # cmds) = pipeline_execute (hset c k m) cmds"
  by (simp add: pipeline_execute_def)

lemma pipeline_execute_snoc: "pipeline_execute c (cmds @ [(k, m)]) = hset (pipeline_execute c cmds) k m"
  by (simp add: pipeline_execute_def)

lemma fmdom_pipeline_execute:
  "fmdom (pipeline_execute c cmds) = fmdom c |\<union>| fset_of_list (map fst cmds)"
proof (induction cmds arbitrary: c)
  case Nil
  then show ?case by (simp add: pipeline_execute_Nil)
next
  case (Cons cmd cmds)
  obtain k m where "cmd = (k, m)" by (cases cmd)
  with Cons show ?case by (auto simp: pipeline_execute_Cons fmdom_hset)
qed

lemma scan_stock_keys_pipeline_execute:
  "scan_stock_keys c \<noteq> {||} \<Longrightarrow> scan_stock_keys (pipeline_execute c cmds) \<noteq> {||}"
  by (auto simp: scan_stock_keys_def fmdom_pipeline_execute)

lemma fmlookup_pipeline_execute_other:
  "k \<notin> set (map fst cmds) \<Longrightarrow> fmlookup (pipeline_execute c cmds) k = fmlookup c k"
proof (induction cmds arbitrary: c)
  case Nil
  then show ?case by (simp add: pipeline_execute_Nil)
next
  case (Cons cmd cmds)
  obtain k' m where "cmd = (k', m)" by (cases cmd)
  with Cons show ?case by (simp add: pipeline_execute_Cons fmlookup_hset)
qed

lemma fmlookup_pipeline_execute_once:
  "distinct (map fst cmds) \<Longrightarrow> (k, m) \<in> set cmds \<Longrightarrow>
   fmlookup (pipeline_execute c cmds) k =
     Some ((case fmlookup c k of None \<Rightarrow> fmempty | Some h \<Rightarrow> h) ++\<^sub>f fmap_of_list m)"
proof (induction cmds arbitrary: c)
  case Nil
  then show ?case by simp
next
  case (Cons cmd cmds)
  obtain k' m' where cmd: "cmd = (k', m')" by (cases cmd)
  show ?case
  proof (cases "(k, m) = cmd")
    case True
    with Cons.prems cmd have "k \<notin> set (map fst cmds)" by auto
    from fmlookup_pipeline_execute_other [OF this] True cmd show ?thesis
      by (simp add: pipeline_execute_Cons fmlookup_hset)
  next
    case False
    with Cons.prems have in_rest: "(k, m) \<in> set cmds" and d: "distinct (map fst cmds)" by auto
    then have "k \<in> set (map fst cmds)" by force
    with Cons.prems cmd have "k' \<noteq> k" by auto
    with Cons.IH [OF d in_rest] cmd show ?thesis
      by (simp add: pipeline_execute_Cons fmlookup_hset)
  qed
qed

lemma last_quantity_snoc:
  "last_quantity (items @ [(p, qty, u)]) pid = (if p = pid then Some qty else last_quantity items pid)"
  by (induction items pid rule: last_quantity.induct) auto

lemma last_quantity_None: "last_quantity items pid = None \<longleftrightarrow> pid \<notin> set (map fst items)"
  by (induction items pid rule: last_quantity.induct) (auto split: option.splits)

subsection \<open>The cache adjustment\<close>

lemma read_current_stock_stored:
  "stored_quantity c pid n \<Longrightarrow> read_current_stock (hget c (stock_key pid) ''quantity'') = Inr n"
  by (auto simp: stored_quantity_def str_int_not_Nil int_of_text_str_int split: option.splits)

lemma find_key_distinct:
  "distinct (map f xs) \<Longrightarrow> x \<in> set xs \<Longrightarrow> find (\<lambda>y. f y = f x) xs = Some x"
  by (induction xs) (auto simp: image_iff)

lemma find_key_None: "find (\<lambda>y. f y = k) xs = None \<longleftrightarrow> k \<notin> set (map f xs)"
  by (induction xs) auto

lemma find_key_Some: "find (\<lambda>y. f y = k) xs = Some x \<Longrightarrow> x \<in> set xs \<and> f x = k"
  by (induction xs) (auto split: if_splits)

lemma product_map_of_query:
  assumes "distinct (map p_id (products d))" and "pid \<in> ids"
  shows "product_map_of (query_products_in d ids) pid = find (\<lambda>p. p_id p = pid) (products d)"
proof (cases "find (\<lambda>p. p_id p = pid) (products d)")
  case None
  then have "pid \<notin> set (map p_id (products d))" by (simp add: find_key_None)
  then have "pid \<notin> fst ` set (rev (map (\<lambda>p. (p_id p, p)) (query_products_in d ids)))"
    by (auto simp: query_products_in_def)
  then have "product_map_of (query_products_in d ids) pid = None"
    by (simp add: product_map_of_def map_of_eq_None_iff)
  with None show ?thesis by simp
next
  case (Some p)
  then have p: "p \<in> set (products d)" "p_id p = pid" using find_key_Some by fastforce+
  let ?l = "map (\<lambda>p. (p_id p, p)) (query_products_in d ids)"
  have "map fst ?l = filter (\<lambda>i. i \<in> ids) (map p_id (products d))"
    by (simp add: query_products_in_def comp_def filter_map)
  with assms(1) have "distinct (map fst ?l)" by simp
  then have dist: "distinct (map fst (rev ?l))" by (simp add: rev_map [symmetric])
  have "(pid, p) \<in> set (rev ?l)"
    using p assms(2) by (auto simp: query_products_in_def)
  with dist have "map_of (rev ?l) pid = Some p" by (rule map_of_is_SomeI)
  with Some show ?thesis by (simp add: product_map_of_def)
qed

lemma item_mapping_planned:
  "product_map pid = find (\<lambda>p. p_id p = pid) (products d) \<Longrightarrow>
   (stock_key pid, item_mapping (new_quantity_of operation (current pid) qty) (product_map pid) unit_price)
     = spec_write d current operation (pid, qty, unit_price)"
  by (simp add: item_mapping_def spec_write_def new_quantity_of_def split: option.splits)

lemma queue_items_planned:
  assumes "F Redis_hget = None"
    and "\<forall>item \<in> set items. stored_quantity c (fst item) (current (fst item))"
    and "\<forall>item \<in> set items. product_map (fst item) = find (\<lambda>p. p_id p = fst item) (products d)"
  shows "queue_items F c product_map operation items pipeline =
           Inr (pipeline @ map (spec_write d current operation) items)"
  using assms(2,3)
proof (induction items arbitrary: pipeline)
  case Nil
  then show ?case by simp
next
  case (Cons item items)
  obtain pid qty unit_price where item: "item = (pid, qty, unit_price)" by (cases item)
  from Cons.prems item have r: "read_current_stock (hget c (stock_key pid) ''quantity'') = Inr (current pid)"
    by (simp add: read_current_stock_stored)
  from Cons.prems item have pm: "product_map pid = find (\<lambda>p. p_id p = pid) (products d)"
    by simp
  have "queue_items F c product_map operation (item # items) pipeline =
        queue_items F c product_map operation items
          (pipeline @ [spec_write d current operation (pid, qty, unit_price)])"
    using assms(1) item_mapping_planned [of product_map pid d operation current qty unit_price] pm
    by (simp add: item r)
  also have "\<dots> = Inr ((pipeline @ [spec_write d current operation (pid, qty, unit_price)])
                        @ map (spec_write d current operation) items)"
    using Cons.prems by (intro Cons.IH) simp_all
  finally show ?case by (simp add: item)
qed

lemma adjust_cache_planned:
  assumes "F Session_query = None" "F Redis_hget = None" "F Pipeline_execute = None"
    and "distinct (map p_id (products (db w)))"
    and "\<forall>item \<in> set items. stored_quantity (cache w) (fst item) (current (fst item))"
  shows "adjust_cache F items operation w =
           Inr (pipeline_execute (cache w) (map (spec_write (db w) current operation) items))"
proof -
  have "\<forall>item \<in> set items.
          product_map_of (query_products_in (db w) (set (map fst items))) (fst item)
            = find (\<lambda>p. p_id p = fst item) (products (db w))"
    using assms(4) by (auto intro!: product_map_of_query)
  with assms(2,5)
  have "queue_items F (cache w) (product_map_of (query_products_in (db w) (set (map fst items))))
          operation items [] = Inr ([] @ map (spec_write (db w) current operation) items)"
    by (intro queue_items_planned)
  with assms(1,3) show ?thesis by (simp add: adjust_cache_def)
qed

lemma hget_quantity_planned:
  "hget (pipeline_execute c (map (spec_write d current operation) items)) (stock_key pid) ''quantity''
     = (case last_quantity items pid of
          None \<Rightarrow> hget c (stock_key pid) ''quantity''
        | Some q \<Rightarrow> Some (Text (str_int (if operation = ''+'' then current pid + q else current pid - q))))"
proof (induction items rule: rev_induct)
  case Nil
  then show ?case by (simp add: pipeline_execute_Nil)
next
  case (snoc item items)
  obtain p qty u where item: "item = (p, qty, u)" by (cases item)
  obtain m where pw: "spec_write d current operation (p, qty, u) = (stock_key p, m)"
    and q: "map_of m ''quantity'' = Some (Text (str_int (if operation = ''+'' then current p + qty else current p - qty)))"
    by (simp add: spec_write_def)
  show ?case
    using snoc.IH
    by (simp add: item pw q pipeline_execute_snoc hget_hset stock_key_inject last_quantity_snoc)
qed

lemma update_stock_redis_warm:
  assumes "order_items \<noteq> []" and "scan_stock_keys (cache w) \<noteq> {||}"
    and "distinct (map p_id (products (db w)))"
    and "\<forall>item \<in> set order_items.
           stored_quantity (cache w) (fst (normalize_item item)) (current (fst (normalize_item item)))"
  shows "update_stock_redis no_faults order_items operation w =
           (Inr (), emit Session_closed ((emit Session_opened w)\<lparr>cache :=
              pipeline_execute (cache w)
                (map (spec_write (db w) current operation) (map normalize_item order_items))\<rparr>))"
proof -
  let ?w2 = "emit Session_opened w"
  have "adjust_cache no_faults (map normalize_item order_items) operation ?w2 =
          Inr (pipeline_execute (cache ?w2)
                 (map (spec_write (db ?w2) current operation) (map normalize_item order_items)))"
    using assms(3,4) by (intro adjust_cache_planned) (simp_all add: no_faults_def)
  with assms(1,2) show ?thesis
    by (simp add: update_stock_redis_def no_faults_def)
qed

subsection \<open>Rehydration\<close>

lemma in_join_rows:
  "row \<in> set (concat (map (\<lambda>s. map (g s) (filter (P s) ps)) ss)) \<longleftrightarrow>
     (\<exists>s \<in> set ss. \<exists>p \<in> set ps. P s p \<and> row = g s p)"
  by (induction ss) auto

lemma in_select_stocks_join_products:
  "row \<in> set (select_stocks_join_products d) \<longleftrightarrow>
     (\<exists>s \<in> set (stocks d). \<exists>p \<in> set (products d).
        s_product_id s = p_id p
        \<and> row = (s_product_id s, s_quantity s, p_name p, p_sku p, p_price p))"
  unfolding select_stocks_join_products_def by (rule in_join_rows)

lemma matching_products_length:
  "distinct (map p_id ps) \<Longrightarrow>
   length (filter (\<lambda>p. k = p_id p) ps) = (if k \<in> set (map p_id ps) then 1 else 0)"
  by (induction ps) (auto simp: filter_empty_conv image_iff)

lemma join_rows_ids:
  assumes "distinct (map p_id ps)"
  shows "map fst (concat (map (\<lambda>s. map (\<lambda>p. (s_product_id s, s_quantity s, p_name p, p_sku p, p_price p))
                                  (filter (\<lambda>p. s_product_id s = p_id p) ps)) ss))
         = map s_product_id (filter (\<lambda>s. s_product_id s \<in> set (map p_id ps)) ss)"
proof (induction ss)
  case Nil
  then show ?case by simp
next
  case (Cons s ss)
  have "length (filter (\<lambda>p. s_product_id s = p_id p) ps)
          = (if s_product_id s \<in> set (map p_id ps) then 1 else 0)"
    using assms by (rule matching_products_length)
  then have "map fst (map (\<lambda>p. (s_product_id s, s_quantity s, p_name p, p_sku p, p_price p))
                       (filter (\<lambda>p. s_product_id s = p_id p) ps))
             = (if s_product_id s \<in> set (map p_id ps) then [s_product_id s] else [])"
    by (cases "filter (\<lambda>p. s_product_id s = p_id p) ps") (auto split: if_splits)
  with Cons show ?case by simp
qed

lemma select_ids:
  "distinct (map p_id (products d)) \<Longrightarrow>
   map fst (select_stocks_join_products d)
     = map s_product_id (filter (\<lambda>s. s_product_id s \<in> set (map p_id (products d))) (stocks d))"
  unfolding select_stocks_join_products_def by (rule join_rows_ids)

lemma select_keys_distinct:
  assumes "unique_keys d"
  shows "distinct (map fst (map stock_entry (select_stocks_join_products d)))"
proof -
  have "map fst (map stock_entry rows) = map stock_key (map fst rows)" for rows
    by (induction rows) (auto simp: stock_entry_def)
  moreover have "distinct (map fst (select_stocks_join_products d))"
    using assms by (simp add: unique_keys_def select_ids distinct_map_filter)
  ultimately show ?thesis
    by (simp add: distinct_map inj_on_def stock_key_inject)
qed

lemma select_keys:
  "set (map fst (map stock_entry (select_stocks_join_products d)))
     = stock_key ` (s_product_id ` set (stocks d) \<inter> p_id ` set (products d))"
proof (intro set_eqI iffI)
  fix k
  assume "k \<in> set (map fst (map stock_entry (select_stocks_join_products d)))"
  then obtain row where "row \<in> set (select_stocks_join_products d)" and "k = fst (stock_entry row)"
    by auto
  then obtain s p where "s \<in> set (stocks d)" "p \<in> set (products d)" "s_product_id s = p_id p"
    and "k = stock_key (s_product_id s)"
    by (auto simp: in_select_stocks_join_products stock_entry_def)
  then show "k \<in> stock_key ` (s_product_id ` set (stocks d) \<inter> p_id ` set (products d))"
    by (metis IntI imageI)
next
  fix k
  assume "k \<in> stock_key ` (s_product_id ` set (stocks d) \<inter> p_id ` set (products d))"
  then obtain s p where sp: "s \<in> set (stocks d)" "p \<in> set (products d)" "s_product_id s = p_id p"
    and k: "k = stock_key (s_product_id s)"
    by auto
  let ?row = "(s_product_id s, s_quantity s, p_name p, p_sku p, p_price p)"
  from sp have "?row \<in> set (select_stocks_join_products d)"
    unfolding in_select_stocks_join_products by blast
  then have "fst (stock_entry ?row) \<in> set (map fst (map stock_entry (select_stocks_join_products d)))"
    by (metis (no_types, lifting) imageI list.set_map)
  with k show "k \<in> set (map fst (map stock_entry (select_stocks_join_products d)))"
    by (simp add: stock_entry_def)
qed

lemma populate_redis_from_mysql_eq:
  "populate_redis_from_mysql F w =
     (case F Session_execute of
        Some e \<Rightarrow> (Inl e, emit Session_closed (emit Session_opened w))
      | None \<Rightarrow>
          if select_stocks_join_products (db w) = [] then
            (Inr (), emit Session_closed (emit Session_opened w))
          else
            (case F Pipeline_execute of
               Some e \<Rightarrow> (Inl e, emit Session_closed (emit Session_opened w))
             | None \<Rightarrow>
                 (Inr (), emit Session_closed ((emit Session_opened w)\<lparr>cache :=
                    pipeline_execute (cache w) (map stock_entry (select_stocks_join_products (db w)))\<rparr>))))"
  by (simp add: populate_redis_from_mysql_def Let_def split: option.splits)

lemma rehydrated_entry:
  assumes "unique_keys d" and "s \<in> set (stocks d)" and "p \<in> set (products d)"
    and "p_id p = s_product_id s"
  shows "fmlookup (pipeline_execute c (map stock_entry (select_stocks_join_products d)))
           (stock_key (s_product_id s))
         = Some ((case fmlookup c (stock_key (s_product_id s)) of None \<Rightarrow> fmempty | Some h \<Rightarrow> h)
                 ++\<^sub>f fmap_of_list [(''quantity'', Text (str_int (s_quantity s))),
                                    (''name'', Text (p_name p)), (''sku'', Text (p_sku p)),
                                    (''price'', FloatText (p_price p))])"
proof -
  let ?row = "(s_product_id s, s_quantity s, p_name p, p_sku p, p_price p)"
  have "?row \<in> set (select_stocks_join_products d)"
    unfolding in_select_stocks_join_products using assms(2,3,4) by force
  then have "stock_entry ?row \<in> set (map stock_entry (select_stocks_join_products d))"
    by simp
  then have "(stock_key (s_product_id s),
              [(''quantity'', Text (str_int (s_quantity s))), (''name'', Text (p_name p)),
               (''sku'', Text (p_sku p)), (''price'', FloatText (p_price p))])
             \<in> set (map stock_entry (select_stocks_join_products d))"
    by (simp add: stock_entry_def)
  with select_keys_distinct [OF assms(1)] show ?thesis
    by (rule fmlookup_pipeline_execute_once)
qed

lemma rehydrated_other:
  assumes "k \<notin> stock_key ` (s_product_id ` set (stocks d) \<inter> p_id ` set (products d))"
  shows "fmlookup (pipeline_execute c (map stock_entry (select_stocks_join_products d))) k = fmlookup c k"
  using assms by (intro fmlookup_pipeline_execute_other) (simp only: select_keys, simp)

lemma select_length:
  assumes "distinct (map p_id (products d))"
  shows "length (select_stocks_join_products d)
         = length (filter (\<lambda>s. s_product_id s \<in> set (map p_id (products d))) (stocks d))"
proof -
  have "length (select_stocks_join_products d) = length (map fst (select_stocks_join_products d))"
    by simp
  also have "\<dots> = length (map s_product_id
                 (filter (\<lambda>s. s_product_id s \<in> set (map p_id (products d))) (stocks d)))"
    by (simp only: select_ids [OF assms])
  finally show ?thesis by simp
qed

text \<open>
  Claim C6. Rehydration on a store with unique keys, for every way the clients may fail.
  The session it opens is closed on every exit and the store is not written. When it
  returns normally, every stock row with a matching product has its cache entry set to the
  four fields \<^verbatim>\<open>quantity\<close>, \<^verbatim>\<open>name\<close>, \<^verbatim>\<open>sku\<close>, \<^verbatim>\<open>price\<close> of the row and its product (over
  whatever the entry held), and every other key, in particular those of stock rows without a
  product and of products without a stock row, is left as it was. A failure returns the
  error of the failing call and leaves the cache as it was. With no stock rows the call
  returns normally and changes nothing. The joined rows are as many as the stock rows that
  have a product.
\<close>

theorem populate_redis_from_mysql_entries:
  assumes "unique_keys (db w)"
  shows "\<exists>r w'. populate_redis_from_mysql F w = (r, w')
     \<and> events w' = events w @ [Session_opened, Session_closed]
     \<and> db w' = db w
     \<and> (case r of
          Inl e \<Rightarrow> (\<exists>site. F site = Some e) \<and> cache w' = cache w
        | Inr _ \<Rightarrow>
            (\<forall>s \<in> set (stocks (db w)). \<forall>p \<in> set (products (db w)). p_id p = s_product_id s \<longrightarrow>
               fmlookup (cache w') (stock_key (s_product_id s))
               = Some ((case fmlookup (cache w) (stock_key (s_product_id s)) of
                          None \<Rightarrow> fmempty | Some h \<Rightarrow> h)
                       ++\<^sub>f fmap_of_list [(''quantity'', Text (str_int (s_quantity s))),
                                          (''name'', Text (p_name p)), (''sku'', Text (p_sku p)),
                                          (''price'', FloatText (p_price p))]))
          \<and> (\<forall>k. k \<notin> stock_key ` (s_product_id ` set (stocks (db w)) \<inter> p_id ` set (products (db w)))
                 \<longrightarrow> fmlookup (cache w') k = fmlookup (cache w) k))
     \<and> (F Session_execute = None \<and> F Pipeline_execute = None \<longrightarrow> r = Inr ())
     \<and> (F Session_execute = None \<and> stocks (db w) = [] \<longrightarrow> r = Inr () \<and> cache w' = cache w)
     \<and> length (select_stocks_join_products (db w))
         = length (filter (\<lambda>s. s_product_id s \<in> set (map p_id (products (db w)))) (stocks (db w)))"
proof -
  let ?rows = "select_stocks_join_products (db w)"
  let ?c' = "pipeline_execute (cache w) (map stock_entry ?rows)"
  let ?entries = "\<lambda>c'.
       (\<forall>s \<in> set (stocks (db w)). \<forall>p \<in> set (products (db w)). p_id p = s_product_id s \<longrightarrow>
               fmlookup c' (stock_key (s_product_id s))
               = Some ((case fmlookup (cache w) (stock_key (s_product_id s)) of
                          None \<Rightarrow> fmempty | Some h \<Rightarrow> h)
                       ++\<^sub>f fmap_of_list [(''quantity'', Text (str_int (s_quantity s))),
                                          (''name'', Text (p_name p)), (''sku'', Text (p_sku p)),
                                          (''price'', FloatText (p_price p))]))
          \<and> (\<forall>k. k \<notin> stock_key ` (s_product_id ` set (stocks (db w)) \<inter> p_id ` set (products (db w)))
                 \<longrightarrow> fmlookup c' k = fmlookup (cache w) k)"
  have entries: "?entries ?c'"
    using rehydrated_entry [OF assms] rehydrated_other by blast
  have empty: "?rows = [] \<Longrightarrow> ?c' = cache w"
    by (simp add: pipeline_execute_Nil)
  have norows: "stocks (db w) = [] \<Longrightarrow> ?rows = []"
    by (simp add: select_stocks_join_products_def)
  have len: "length ?rows
         = length (filter (\<lambda>s. s_product_id s \<in> set (map p_id (products (db w)))) (stocks (db w)))"
    using assms by (intro select_length) (simp add: unique_keys_def)
  show ?thesis
  proof (cases "F Session_execute")
    case (Some e)
    then have "populate_redis_from_mysql F w = (Inl e, emit Session_closed (emit Session_opened w))"
      by (simp add: populate_redis_from_mysql_eq)
    with Some len show ?thesis by auto
  next
    case None
    note exec = this
    show ?thesis
    proof (cases "?rows = []")
      case True
      with exec have "populate_redis_from_mysql F w = (Inr (), emit Session_closed (emit Session_opened w))"
        by (simp add: populate_redis_from_mysql_eq)
      moreover from entries empty [OF True] have "?entries (cache w)" by simp
      ultimately show ?thesis using len by simp
    next
      case False
      with norows have ne: "stocks (db w) \<noteq> []" by blast
      show ?thesis
      proof (cases "F Pipeline_execute")
        case (Some e)
        with exec False have "populate_redis_from_mysql F w
            = (Inl e, emit Session_closed (emit Session_opened w))"
          by (simp add: populate_redis_from_mysql_eq)
        with Some exec ne len show ?thesis by auto
      next
        case None
        with exec False have "populate_redis_from_mysql F w
            = (Inr (), emit Session_closed ((emit Session_opened w)\<lparr>cache := ?c'\<rparr>))"
          by (simp add: populate_redis_from_mysql_eq)
        with entries ne len show ?thesis by simp
      qed
    qed
  qed
qed

subsection \<open>Adjustment after rehydration, repeated product ids\<close>

lemma no_faults_None [simp]: "no_faults site = None"
  by (simp add: no_faults_def)

lemma populate_redis_from_mysql_no_faults:
  "populate_redis_from_mysql no_faults w =
     (Inr (), emit Session_closed ((emit Session_opened w)\<lparr>cache :=
        pipeline_execute (cache w) (map stock_entry (select_stocks_join_products (db w)))\<rparr>))"
  by (cases "select_stocks_join_products (db w) = []")
    (simp_all add: populate_redis_from_mysql_eq pipeline_execute_Nil)

lemma update_stock_redis_planned:
  assumes "order_items \<noteq> []"
    and "distinct (map p_id (products (db w)))"
    and "\<forall>item \<in> set order_items.
           stored_quantity (cache_at_reads w) (fst (normalize_item item)) (current (fst (normalize_item item)))"
  shows "\<exists>w'. update_stock_redis no_faults order_items operation w = (Inr (), w')
           \<and> cache w' = pipeline_execute (cache_at_reads w)
                (map (spec_write (db w) current operation) (map normalize_item order_items))
           \<and> db w' = db w
           \<and> events w' = events w @
                (if scan_stock_keys (cache w) = {||} then [Session_opened, Session_closed] else [])
                @ [Session_opened, Session_closed]"
proof (cases "scan_stock_keys (cache w) = {||}")
  case True
  let ?c1 = "pipeline_execute (cache w) (map stock_entry (select_stocks_join_products (db w)))"
  let ?w2 = "emit Session_opened (emit Session_closed ((emit Session_opened w)\<lparr>cache := ?c1\<rparr>))"
  have car: "cache_at_reads w = ?c1"
    using True by (simp add: cache_at_reads_def)
  have "adjust_cache no_faults (map normalize_item order_items) operation ?w2 =
          Inr (pipeline_execute (cache ?w2)
                 (map (spec_write (db ?w2) current operation) (map normalize_item order_items)))"
    using assms(2,3) unfolding car
    by (intro adjust_cache_planned) simp_all
  then have "update_stock_redis no_faults order_items operation w =
          (Inr (), emit Session_closed (?w2\<lparr>cache := pipeline_execute ?c1
                 (map (spec_write (db w) current operation) (map normalize_item order_items))\<rparr>))"
    using assms(1) True
    by (simp add: update_stock_redis_def populate_redis_from_mysql_no_faults)
  with True car show ?thesis by simp
next
  case False
  let ?w2 = "emit Session_opened w"
  have car: "cache_at_reads w = cache w"
    using False by (simp add: cache_at_reads_def)
  have "adjust_cache no_faults (map normalize_item order_items) operation ?w2 =
          Inr (pipeline_execute (cache ?w2)
                 (map (spec_write (db ?w2) current operation) (map normalize_item order_items)))"
    using assms(2,3) unfolding car
    by (intro adjust_cache_planned) simp_all
  then have "update_stock_redis no_faults order_items operation w =
          (Inr (), emit Session_closed (?w2\<lparr>cache := pipeline_execute (cache w)
                 (map (spec_write (db w) current operation) (map normalize_item order_items))\<rparr>))"
    using assms(1) False
    by (simp add: update_stock_redis_def)
  with False car show ?thesis by simp
qed

lemma queue_items_writes:
  assumes "F Redis_hget = None"
    and "distinct (map p_id (products (db w)))"
    and "\<forall>item \<in> set items. stored_quantity (cache w) (fst item) (current (fst item))"
  shows "queue_items F (cache w) (product_map_of (query_products_in (db w) (set (map fst items))))
           operation items []
         = Inr (map (spec_write (db w) current operation) items)
       \<and> (F Session_query = None \<and> F Pipeline_execute = None \<longrightarrow>
            adjust_cache F items operation w
            = Inr (pipeline_execute (cache w) (map (spec_write (db w) current operation) items)))"
proof -
  have "\<forall>item \<in> set items.
          product_map_of (query_products_in (db w) (set (map fst items))) (fst item)
            = find (\<lambda>p. p_id p = fst item) (products (db w))"
    using assms(2) by (auto intro!: product_map_of_query)
  with assms(1,3)
  have "queue_items F (cache w) (product_map_of (query_products_in (db w) (set (map fst items))))
          operation items [] = Inr ([] @ map (spec_write (db w) current operation) items)"
    by (intro queue_items_planned)
  moreover have "adjust_cache F items operation w
            = Inr (pipeline_execute (cache w) (map (spec_write (db w) current operation) items))"
    if "F Session_query = None" "F Pipeline_execute = None"
    using that assms by (intro adjust_cache_planned)
  ultimately show ?thesis by simp
qed

text \<open>
  Claim C5. \<^verbatim>\<open>update_stock_redis\<close> on a non-empty sequence, with clients that do not fail and
  every quantity it reads missing, empty or the text of an integer. Each item is normalized
  by its own shape; the loop over the normalized items, with the product map built from the
  store, queues the writes of the specification for the items, in input order; and the
  cache the call leaves is the cache its reads found with exactly these writes applied in
  that order.
\<close>

theorem update_stock_redis_item_writes:
  assumes "order_items \<noteq> []"
    and "distinct (map p_id (products (db w)))"
    and "\<forall>item \<in> set order_items.
           stored_quantity (cache_at_reads w) (fst (normalize_item item)) (current (fst (normalize_item item)))"
  shows "\<exists>w'. update_stock_redis no_faults order_items operation w = (Inr (), w')
           \<and> map normalize_item order_items
               = map (\<lambda>item. case item of
                                Object_item pid qty unit_price \<Rightarrow> (pid, qty, unit_price)
                              | Mapping_item pid qty unit_price \<Rightarrow> (pid, qty, unit_price)) order_items
           \<and> queue_items no_faults (cache_at_reads w)
                 (product_map_of (query_products_in (db w) (set (map fst (map normalize_item order_items)))))
                 operation (map normalize_item order_items) []
               = Inr (map (spec_write (db w) current operation) (map normalize_item order_items))
           \<and> cache w' = pipeline_execute (cache_at_reads w)
                 (map (spec_write (db w) current operation) (map normalize_item order_items))
           \<and> db w' = db w"
proof -
  let ?items = "map normalize_item order_items"
  from update_stock_redis_planned [OF assms, of operation]
  obtain w' where run: "update_stock_redis no_faults order_items operation w = (Inr (), w')"
    and c: "cache w' = pipeline_execute (cache_at_reads w) (map (spec_write (db w) current operation) ?items)"
    and d: "db w' = db w"
    by blast
  have n: "?items = map (\<lambda>item. case item of
                                Object_item pid qty unit_price \<Rightarrow> (pid, qty, unit_price)
                              | Mapping_item pid qty unit_price \<Rightarrow> (pid, qty, unit_price)) order_items"
    by (rule map_cong [OF refl]) (simp split: order_item.splits)
  have pm: "\<forall>item \<in> set ?items.
          product_map_of (query_products_in (db w) (set (map fst ?items))) (fst item)
            = find (\<lambda>p. p_id p = fst item) (products (db w))"
    using assms(2) by (auto intro!: product_map_of_query)
  have st: "\<forall>item \<in> set ?items. stored_quantity (cache_at_reads w) (fst item) (current (fst item))"
    using assms(3) by simp
  have f: "no_faults Redis_hget = None" by simp
  from f st pm
  have q: "queue_items no_faults (cache_at_reads w)
          (product_map_of (query_products_in (db w) (set (map fst ?items)))) operation ?items []
        = Inr ([] @ map (spec_write (db w) current operation) ?items)"
    by (rule queue_items_planned)
  show ?thesis
    using run n q c d by (intro exI [of _ w']) simp
qed

text \<open>
  Claim C2. Every write of one call is planned from the cache as the reads found it, none
  from a write queued earlier in the call: the quantity an entry ends with is the quantity
  read for its product id moved by the quantity of the last item naming that id alone.
  When the scan found keys, the cache the reads found is the cache before the call.
\<close>

theorem update_stock_redis_same_product:
  assumes "order_items \<noteq> []"
    and "distinct (map p_id (products (db w)))"
    and "\<forall>item \<in> set order_items.
           stored_quantity (cache_at_reads w) (fst (normalize_item item)) (current (fst (normalize_item item)))"
  shows "\<exists>w'. update_stock_redis no_faults order_items operation w = (Inr (), w')
           \<and> cache w' = pipeline_execute (cache_at_reads w)
                (map (spec_write (db w) current operation) (map normalize_item order_items))
           \<and> (\<forall>pid. hget (cache w') (stock_key pid) ''quantity''
                = (case last_quantity (map normalize_item order_items) pid of
                     None \<Rightarrow> hget (cache_at_reads w) (stock_key pid) ''quantity''
                   | Some q \<Rightarrow>
                       Some (Text (str_int (if operation = ''+'' then current pid + q else current pid - q)))))
           \<and> (scan_stock_keys (cache w) \<noteq> {||} \<longrightarrow> cache_at_reads w = cache w)"
proof -
  from update_stock_redis_planned [OF assms, of operation]
  obtain w' where run: "update_stock_redis no_faults order_items operation w = (Inr (), w')"
    and c: "cache w' = pipeline_execute (cache_at_reads w)
                (map (spec_write (db w) current operation) (map normalize_item order_items))"
    by blast
  have "hget (cache w') (stock_key pid) ''quantity''
                = (case last_quantity (map normalize_item order_items) pid of
                     None \<Rightarrow> hget (cache_at_reads w) (stock_key pid) ''quantity''
                   | Some q \<Rightarrow>
                       Some (Text (str_int (if operation = ''+'' then current pid + q else current pid - q))))"
    for pid
    unfolding c by (rule hget_quantity_planned)
  moreover have "scan_stock_keys (cache w) \<noteq> {||} \<longrightarrow> cache_at_reads w = cache w"
    by (simp add: cache_at_reads_def)
  ultimately show ?thesis using run c by blast
qed

lemma scan_empty_lookup:
  assumes "scan_stock_keys c = {||}"
  shows "fmlookup c (stock_key pid) = None"
proof (rule ccontr)
  assume "fmlookup c (stock_key pid) \<noteq> None"
  then have "stock_key pid |\<in>| fmdom c" by (auto intro: fmdomI)
  then have "stock_key pid |\<in>| scan_stock_keys c"
    by (simp add: scan_stock_keys_def prefix_stock_key)
  with assms show False by simp
qed

lemma spec_rehydrated_quantity_row:
  assumes "unique_keys d" and "s \<in> set (stocks d)" and "p \<in> set (products d)"
    and "p_id p = s_product_id s"
  shows "spec_rehydrated_quantity d (s_product_id s) = s_quantity s"
proof -
  have "find (\<lambda>y. s_product_id y = s_product_id s) (stocks d) = Some s"
    using assms(1,2) by (intro find_key_distinct) (simp_all add: unique_keys_def)
  moreover have "s_product_id s \<in> set (map p_id (products d))"
    using assms(3,4) by force
  ultimately show ?thesis by (simp add: spec_rehydrated_quantity_def)
qed

lemma cold_stored_quantity:
  assumes "scan_stock_keys (cache w) = {||}" and "unique_keys (db w)"
  shows "stored_quantity (cache_at_reads w) pid (spec_rehydrated_quantity (db w) pid)"
proof -
  let ?c1 = "pipeline_execute (cache w) (map stock_entry (select_stocks_join_products (db w)))"
  have car: "cache_at_reads w = ?c1" using assms(1) by (simp add: cache_at_reads_def)
  show ?thesis
  proof (cases "pid \<in> s_product_id ` set (stocks (db w)) \<inter> p_id ` set (products (db w))")
    case True
    then obtain s p where sp: "s \<in> set (stocks (db w))" "p \<in> set (products (db w))"
      "p_id p = s_product_id s" and pid: "pid = s_product_id s"
      by auto
    have "hget ?c1 (stock_key pid) ''quantity'' = Some (Text (str_int (s_quantity s)))"
      unfolding pid hget_def rehydrated_entry [OF assms(2) sp]
      by (simp add: fmlookup_add_of_list del: fmlookup_add)
    moreover have "spec_rehydrated_quantity (db w) pid = s_quantity s"
      unfolding pid using assms(2) sp by (rule spec_rehydrated_quantity_row)
    ultimately show ?thesis by (simp add: car stored_quantity_def)
  next
    case False
    have "inj stock_key" by (simp add: inj_def stock_key_inject)
    with False have "stock_key pid \<notin> stock_key ` (s_product_id ` set (stocks (db w)) \<inter> p_id ` set (products (db w)))"
      by (simp only: inj_image_mem_iff not_False_eq_True)
    then have "fmlookup ?c1 (stock_key pid) = fmlookup (cache w) (stock_key pid)"
      by (rule rehydrated_other)
    then have h: "hget ?c1 (stock_key pid) ''quantity'' = None"
      by (simp add: hget_def scan_empty_lookup [OF assms(1)])
    have "spec_rehydrated_quantity (db w) pid = 0"
    proof (cases "find (\<lambda>s. s_product_id s = pid) (stocks (db w))")
      case None
      then show ?thesis by (simp add: spec_rehydrated_quantity_def)
    next
      case (Some s)
      then have "s \<in> set (stocks (db w))" "s_product_id s = pid"
        using find_key_Some by fastforce+
      with False have "pid \<notin> set (map p_id (products (db w)))" by auto
      with Some show ?thesis by (simp add: spec_rehydrated_quantity_def)
    qed
    with h show ?thesis by (simp add: car stored_quantity_def)
  qed
qed

text \<open>
  Claim C1. A non-empty sequence on a cache whose stock namespace is empty: the cache is
  rehydrated (one session opened and closed) before the items are processed (a second
  session), the writes are planned from the rehydrated quantities, and the rehydrated
  quantity of a stock row with a matching product is the quantity of the row.
\<close>

theorem update_stock_redis_rehydrates_first:
  assumes "order_items \<noteq> []" and "scan_stock_keys (cache w) = {||}" and "unique_keys (db w)"
  shows "\<exists>w'. update_stock_redis no_faults order_items operation w = (Inr (), w')
     \<and> events w' = events w @ [Session_opened, Session_closed, Session_opened, Session_closed]
     \<and> cache w' =
         pipeline_execute
           (pipeline_execute (cache w) (map stock_entry (select_stocks_join_products (db w))))
           (map (spec_write (db w) (spec_rehydrated_quantity (db w)) operation)
              (map normalize_item order_items))
     \<and> (\<forall>pid. hget (cache w') (stock_key pid) ''quantity''
           = (case last_quantity (map normalize_item order_items) pid of
                None \<Rightarrow>
                  hget (pipeline_execute (cache w) (map stock_entry (select_stocks_join_products (db w))))
                    (stock_key pid) ''quantity''
              | Some q \<Rightarrow>
                  Some (Text (str_int (if operation = ''+'' then spec_rehydrated_quantity (db w) pid + q
                                       else spec_rehydrated_quantity (db w) pid - q)))))
     \<and> (\<forall>s \<in> set (stocks (db w)). \<forall>p \<in> set (products (db w)). p_id p = s_product_id s \<longrightarrow>
           spec_rehydrated_quantity (db w) (s_product_id s) = s_quantity s)"
proof -
  let ?c1 = "pipeline_execute (cache w) (map stock_entry (select_stocks_join_products (db w)))"
  let ?cur = "spec_rehydrated_quantity (db w)"
  have car: "cache_at_reads w = ?c1" using assms(2) by (simp add: cache_at_reads_def)
  have d: "distinct (map p_id (products (db w)))" using assms(3) by (simp add: unique_keys_def)
  have st: "\<forall>item \<in> set order_items.
           stored_quantity (cache_at_reads w) (fst (normalize_item item)) (?cur (fst (normalize_item item)))"
    using cold_stored_quantity [OF assms(2,3)] by blast
  from update_stock_redis_planned [OF assms(1) d st, of operation]
  obtain w' where run: "update_stock_redis no_faults order_items operation w = (Inr (), w')"
    and c: "cache w' = pipeline_execute ?c1
                (map (spec_write (db w) ?cur operation) (map normalize_item order_items))"
    and e: "events w' = events w @ [Session_opened, Session_closed, Session_opened, Session_closed]"
    using assms(2) by (auto simp: car)
  have q: "\<forall>pid. hget (cache w') (stock_key pid) ''quantity''
           = (case last_quantity (map normalize_item order_items) pid of
                None \<Rightarrow> hget ?c1 (stock_key pid) ''quantity''
              | Some q \<Rightarrow>
                  Some (Text (str_int (if operation = ''+'' then ?cur pid + q else ?cur pid - q))))"
    unfolding c by (intro allI hget_quantity_planned)
  have r: "\<forall>s \<in> set (stocks (db w)). \<forall>p \<in> set (products (db w)). p_id p = s_product_id s \<longrightarrow>
           ?cur (s_product_id s) = s_quantity s"
    using spec_rehydrated_quantity_row [OF assms(3)] by blast
  show ?thesis
    by (rule exI [of _ w']) (intro conjI run e c q r)
qed

lemma update_stock_redis_round_trip:
  assumes "order_items \<noteq> []" and "scan_stock_keys (cache w) \<noteq> {||}"
    and "distinct (map p_id (products (db w)))"
    and "\<forall>item \<in> set order_items.
           stored_quantity (cache w) (fst (normalize_item item)) (current (fst (normalize_item item)))"
    and "(op1 = ''+'') \<noteq> (op2 = ''+'')"
  shows "\<exists>w1 w2. update_stock_redis no_faults order_items op1 w = (Inr (), w1)
           \<and> update_stock_redis no_faults order_items op2 w1 = (Inr (), w2)
           \<and> (\<forall>pid. hget (cache w2) (stock_key pid) ''quantity''
                 = (if pid \<in> set (map (\<lambda>i. fst (normalize_item i)) order_items)
                    then Some (Text (str_int (current pid)))
                    else hget (cache w) (stock_key pid) ''quantity''))"
proof -
  let ?items = "map normalize_item order_items"
  let ?cur1 = "\<lambda>pid. case last_quantity ?items pid of
                        None \<Rightarrow> current pid
                      | Some q \<Rightarrow> if op1 = ''+'' then current pid + q else current pid - q"
  have car: "cache_at_reads w = cache w" using assms(2) by (simp add: cache_at_reads_def)
  from update_stock_redis_planned [of order_items w current op1] assms(1,3,4)
  obtain w1 where run1: "update_stock_redis no_faults order_items op1 w = (Inr (), w1)"
    and c1: "cache w1 = pipeline_execute (cache w) (map (spec_write (db w) current op1) ?items)"
    and d1: "db w1 = db w"
    unfolding car by blast
  have q1: "hget (cache w1) (stock_key pid) ''quantity''
           = (case last_quantity ?items pid of
                None \<Rightarrow> hget (cache w) (stock_key pid) ''quantity''
              | Some q \<Rightarrow> Some (Text (str_int (if op1 = ''+'' then current pid + q else current pid - q))))"
    for pid
    unfolding c1 by (rule hget_quantity_planned)
  have warm1: "scan_stock_keys (cache w1) \<noteq> {||}"
    unfolding c1 using assms(2) by (rule scan_stock_keys_pipeline_execute)
  then have car1: "cache_at_reads w1 = cache w1" by (simp add: cache_at_reads_def)
  have st1: "\<forall>item \<in> set order_items.
           stored_quantity (cache_at_reads w1) (fst (normalize_item item)) (?cur1 (fst (normalize_item item)))"
  proof
    fix item assume "item \<in> set order_items"
    then have "fst (normalize_item item) \<in> set (map fst ?items)" by force
    then obtain q where "last_quantity ?items (fst (normalize_item item)) = Some q"
      using last_quantity_None [of ?items "fst (normalize_item item)"] by (cases "last_quantity ?items (fst (normalize_item item))") auto
    then show "stored_quantity (cache_at_reads w1) (fst (normalize_item item)) (?cur1 (fst (normalize_item item)))"
      by (simp add: car1 stored_quantity_def q1)
  qed
  from update_stock_redis_planned [of order_items w1 ?cur1 op2] assms(1,3) st1
  obtain w2 where run2: "update_stock_redis no_faults order_items op2 w1 = (Inr (), w2)"
    and c2: "cache w2 = pipeline_execute (cache w1) (map (spec_write (db w1) ?cur1 op2) ?items)"
    unfolding car1 d1 by blast
  have q2: "hget (cache w2) (stock_key pid) ''quantity''
           = (case last_quantity ?items pid of
                None \<Rightarrow> hget (cache w1) (stock_key pid) ''quantity''
              | Some q \<Rightarrow> Some (Text (str_int (if op2 = ''+'' then ?cur1 pid + q else ?cur1 pid - q))))"
    for pid
    unfolding c2 by (rule hget_quantity_planned)
  have "hget (cache w2) (stock_key pid) ''quantity''
                 = (if pid \<in> set (map (\<lambda>i. fst (normalize_item i)) order_items)
                    then Some (Text (str_int (current pid)))
                    else hget (cache w) (stock_key pid) ''quantity'')" for pid
  proof (cases "last_quantity ?items pid")
    case None
    then have "pid \<notin> set (map (\<lambda>i. fst (normalize_item i)) order_items)"
      by (simp add: last_quantity_None comp_def)
    with None show ?thesis by (simp add: q2 q1)
  next
    case (Some q)
    then have "pid \<in> set (map (\<lambda>i. fst (normalize_item i)) order_items)"
      using last_quantity_None [of ?items pid] by (simp add: comp_def)
    with Some assms(5) show ?thesis by (auto simp: q2)
  qed
  with run1 run2 show ?thesis by blast
qed

subsection \<open>Increment and decrement\<close>

lemmas text_eval = stock_key_def str_int_def str_nat_def digits.simps digit_char_def

lemma scan_nonempty:
  assumes "fmlookup c (stock_key pid) \<noteq> None"
  shows "scan_stock_keys c \<noteq> {||}"
proof
  assume "scan_stock_keys c = {||}"
  then have "fmlookup c (stock_key pid) = None" by (rule scan_empty_lookup)
  with assms show False by simp
qed

text \<open>
  Claim C8. An increment followed by a decrement of the same items, and a decrement
  followed by an increment, as two calls one after the other. On the store of record
  (\<^verbatim>\<open>check_in_items_to_stock\<close>, \<^verbatim>\<open>check_out_items_from_stock\<close>, for items of uniform shape and
  a client that does not fail) the tables are the ones before the two calls. On the cache
  (\<^verbatim>\<open>update_stock_redis\<close> with \<^verbatim>\<open>+\<close> and \<^verbatim>\<open>-\<close>, on a cache with stock entries whose quantities
  read as integers) every product id the items name ends with the quantity read for it
  before the two calls, and every other entry keeps its quantity.
\<close>

theorem increment_then_decrement:
  assumes "uniform_shape order_items" and "F Session_execute = None"
    and "order_items \<noteq> []" and "scan_stock_keys (cache w) \<noteq> {||}"
    and "distinct (map p_id (products (db w)))"
    and "\<forall>item \<in> set order_items.
           stored_quantity (cache w) (fst (normalize_item item)) (current (fst (normalize_item item)))"
  shows "(\<exists>session1. check_in_items_to_stock F session order_items = (Inr (), session1)
            \<and> check_out_items_from_stock F session1 order_items = (Inr (), session))
       \<and> (\<exists>session1. check_out_items_from_stock F session order_items = (Inr (), session1)
            \<and> check_in_items_to_stock F session1 order_items = (Inr (), session))
       \<and> (\<exists>w1 w2. update_stock_redis no_faults order_items ''+'' w = (Inr (), w1)
            \<and> update_stock_redis no_faults order_items ''-'' w1 = (Inr (), w2)
            \<and> (\<forall>pid. hget (cache w2) (stock_key pid) ''quantity''
                  = (if pid \<in> set (map (\<lambda>i. fst (normalize_item i)) order_items)
                     then Some (Text (str_int (current pid)))
                     else hget (cache w) (stock_key pid) ''quantity'')))
       \<and> (\<exists>w1 w2. update_stock_redis no_faults order_items ''-'' w = (Inr (), w1)
            \<and> update_stock_redis no_faults order_items ''+'' w1 = (Inr (), w2)
            \<and> (\<forall>pid. hget (cache w2) (stock_key pid) ''quantity''
                  = (if pid \<in> set (map (\<lambda>i. fst (normalize_item i)) order_items)
                     then Some (Text (str_int (current pid)))
                     else hget (cache w) (stock_key pid) ''quantity'')))"
proof (intro conjI)
  have plus: "update_stock_mysql F d order_items ''+'' = (Inr (), apply_deltas 1 order_items d)" for d
    using update_stock_mysql_uniform [of F "''+''" order_items d] assms(1,2)
    by (simp add: operation_sign_def)
  have minus: "update_stock_mysql F d order_items ''-'' = (Inr (), apply_deltas (- 1) order_items d)" for d
    using update_stock_mysql_uniform [of F "''-''" order_items d] assms(1,2)
    by (simp add: operation_sign_def)
  have restore: "apply_deltas (- 1) order_items (apply_deltas 1 order_items session) = session"
    by (rule apply_deltas_inverse)
  have forth: "apply_deltas 1 order_items (apply_deltas (- 1) order_items session) = session"
    using apply_deltas_inverse [of "- 1" order_items session] by simp
  show "\<exists>session1. check_in_items_to_stock F session order_items = (Inr (), session1)
            \<and> check_out_items_from_stock F session1 order_items = (Inr (), session)"
    by (simp add: check_in_items_to_stock_def check_out_items_from_stock_def plus minus restore)
  show "\<exists>session1. check_out_items_from_stock F session order_items = (Inr (), session1)
            \<and> check_in_items_to_stock F session1 order_items = (Inr (), session)"
    by (simp add: check_in_items_to_stock_def check_out_items_from_stock_def plus minus forth)
  show "\<exists>w1 w2. update_stock_redis no_faults order_items ''+'' w = (Inr (), w1)
            \<and> update_stock_redis no_faults order_items ''-'' w1 = (Inr (), w2)
            \<and> (\<forall>pid. hget (cache w2) (stock_key pid) ''quantity''
                  = (if pid \<in> set (map (\<lambda>i. fst (normalize_item i)) order_items)
                     then Some (Text (str_int (current pid)))
                     else hget (cache w) (stock_key pid) ''quantity''))"
    using assms(3,4,5,6) by (intro update_stock_redis_round_trip) simp_all
  show "\<exists>w1 w2. update_stock_redis no_faults order_items ''-'' w = (Inr (), w1)
            \<and> update_stock_redis no_faults order_items ''+'' w1 = (Inr (), w2)
            \<and> (\<forall>pid. hget (cache w2) (stock_key pid) ''quantity''
                  = (if pid \<in> set (map (\<lambda>i. fst (normalize_item i)) order_items)
                     then Some (Text (str_int (current pid)))
                     else hget (cache w) (stock_key pid) ''quantity''))"
    using assms(3,4,5,6) by (intro update_stock_redis_round_trip) simp_all
qed

lemma warm_world_facts:
  "scan_stock_keys (cache warm_world) \<noteq> {||}"
  "distinct (map p_id (products (db warm_world)))"
  "hget (cache warm_world) (stock_key 1) ''quantity'' = Some (Text ''10'')"
  "stored_quantity (cache warm_world) 1 10"
proof -
  show l: "hget (cache warm_world) (stock_key 1) ''quantity'' = Some (Text ''10'')"
    by (simp add: warm_world_def example_world_def hget_def text_eval)
  then have "fmlookup (cache warm_world) (stock_key 1) \<noteq> None"
    by (auto simp: hget_def split: option.splits)
  then show "scan_stock_keys (cache warm_world) \<noteq> {||}" by (rule scan_nonempty)
  show "distinct (map p_id (products (db warm_world)))"
    by (simp add: warm_world_def example_world_def)
  show "stored_quantity (cache warm_world) 1 10"
    by (simp add: stored_quantity_def l) (simp add: text_eval)
qed

theorem increment_then_decrement_witness:
  "check_out_items_from_stock no_faults
     (snd (check_in_items_to_stock no_faults (db warm_world) [Mapping_item 1 3 None, Mapping_item 1 5 None]))
     [Mapping_item 1 3 None, Mapping_item 1 5 None] = (Inr (), db warm_world)
   \<and> (\<exists>w1 w2. update_stock_redis no_faults [Mapping_item 1 3 None, Mapping_item 1 5 None] ''+'' warm_world = (Inr (), w1)
         \<and> update_stock_redis no_faults [Mapping_item 1 3 None, Mapping_item 1 5 None] ''-'' w1 = (Inr (), w2)
         \<and> hget (cache w2) ''stock:1'' ''quantity'' = Some (Text ''10''))"
proof -
  let ?items = "[Mapping_item 1 3 None, Mapping_item 1 5 None]"
  have u: "uniform_shape ?items" by (simp add: uniform_shape_def)
  have f: "no_faults Session_execute = None" by simp
  have n: "?items \<noteq> []" by simp
  have s: "\<forall>item \<in> set ?items.
           stored_quantity (cache warm_world) (fst (normalize_item item)) ((\<lambda>_. 10) (fst (normalize_item item)))"
    by (simp add: warm_world_facts)
  have k: "stock_key 1 = ''stock:1''" and t: "str_int 10 = ''10''" by (simp_all add: text_eval)
  have "stored_quantity (cache warm_world) 1 10 \<and> scan_stock_keys (cache warm_world) \<noteq> {||}"
    by (simp add: warm_world_facts)
  with increment_then_decrement [where order_items = ?items and F = no_faults and w = warm_world
      and current = "\<lambda>_. 10" and session = "db warm_world"] u f n warm_world_facts(2)
  have "(\<exists>session1. check_in_items_to_stock no_faults (db warm_world) ?items = (Inr (), session1)
            \<and> check_out_items_from_stock no_faults session1 ?items = (Inr (), db warm_world))
       \<and> (\<exists>session1. check_out_items_from_stock no_faults (db warm_world) ?items = (Inr (), session1)
            \<and> check_in_items_to_stock no_faults session1 ?items = (Inr (), db warm_world))
       \<and> (\<exists>w1 w2. update_stock_redis no_faults ?items ''+'' warm_world = (Inr (), w1)
            \<and> update_stock_redis no_faults ?items ''-'' w1 = (Inr (), w2)
            \<and> (\<forall>pid. hget (cache w2) (stock_key pid) ''quantity''
                  = (if pid \<in> set (map (\<lambda>i. fst (normalize_item i)) ?items)
                     then Some (Text (str_int 10))
                     else hget (cache warm_world) (stock_key pid) ''quantity'')))
       \<and> (\<exists>w1 w2. update_stock_redis no_faults ?items ''-'' warm_world = (Inr (), w1)
            \<and> update_stock_redis no_faults ?items ''+'' w1 = (Inr (), w2)
            \<and> (\<forall>pid. hget (cache w2) (stock_key pid) ''quantity''
                  = (if pid \<in> set (map (\<lambda>i. fst (normalize_item i)) ?items)
                     then Some (Text (str_int 10))
                     else hget (cache warm_world) (stock_key pid) ''quantity'')))"
    by simp
  note T = this
  from T [THEN conjunct1] obtain session1
    where i1: "check_in_items_to_stock no_faults (db warm_world) ?items = (Inr (), session1)"
      and o1: "check_out_items_from_stock no_faults session1 ?items = (Inr (), db warm_world)"
    by blast
  from T [THEN conjunct2, THEN conjunct2, THEN conjunct1] obtain w1 w2
    where r1: "update_stock_redis no_faults ?items ''+'' warm_world = (Inr (), w1)"
      and r2: "update_stock_redis no_faults ?items ''-'' w1 = (Inr (), w2)"
      and q: "\<forall>pid. hget (cache w2) (stock_key pid) ''quantity''
                  = (if pid \<in> set (map (\<lambda>i. fst (normalize_item i)) ?items)
                     then Some (Text (str_int 10))
                     else hget (cache warm_world) (stock_key pid) ''quantity'')"
    by blast
  from q have "hget (cache w2) (stock_key 1) ''quantity'' = Some (Text (str_int 10))"
    by simp
  then have "hget (cache w2) ''stock:1'' ''quantity'' = Some (Text ''10'')"
    by (simp only: k t)
  with r1 r2 have "\<exists>w1 w2. update_stock_redis no_faults ?items ''+'' warm_world = (Inr (), w1)
         \<and> update_stock_redis no_faults ?items ''-'' w1 = (Inr (), w2)
         \<and> hget (cache w2) ''stock:1'' ''quantity'' = Some (Text ''10'')"
    by blast
  moreover from i1 o1 have "check_out_items_from_stock no_faults
     (snd (check_in_items_to_stock no_faults (db warm_world) ?items)) ?items = (Inr (), db warm_world)"
    by simp
  ultimately show ?thesis by (rule conjI [rotated])
qed

subsection \<open>Runs on the example worlds\<close>

lemma example_world_facts:
  "unique_keys (db example_world)"
  "scan_stock_keys (cache example_world) = {||}"
  "spec_rehydrated_quantity (db example_world) 1 = 10"
  by (auto simp: unique_keys_def example_world_def scan_stock_keys_def spec_rehydrated_quantity_def)

theorem populate_redis_from_mysql_entries_witness:
  "unique_keys (db example_world)
   \<and> (\<exists>w'. populate_redis_from_mysql no_faults example_world = (Inr (), w')
         \<and> events w' = [Session_opened, Session_closed]
         \<and> fmlookup (cache w') ''stock:1''
             = Some (fmap_of_list [(''quantity'', Text ''10''), (''name'', Text ''Widget''),
                                   (''sku'', Text ''W1''), (''price'', FloatText (999 / 100))]))"
proof -
  let ?s = "\<lparr>s_product_id = 1, s_quantity = 10\<rparr>"
  let ?p = "\<lparr>p_id = 1, p_name = ''Widget'', p_sku = ''W1'', p_price = 999 / 100\<rparr>"
  from populate_redis_from_mysql_entries [OF example_world_facts(1), of no_faults]
  obtain r w' where run: "populate_redis_from_mysql no_faults example_world = (r, w')"
    and ev: "events w' = events example_world @ [Session_opened, Session_closed]"
    and entries: "case r of
          Inl e \<Rightarrow> (\<exists>site. no_faults site = Some e) \<and> cache w' = cache example_world
        | Inr _ \<Rightarrow>
            (\<forall>s \<in> set (stocks (db example_world)). \<forall>p \<in> set (products (db example_world)).
               p_id p = s_product_id s \<longrightarrow>
               fmlookup (cache w') (stock_key (s_product_id s))
               = Some ((case fmlookup (cache example_world) (stock_key (s_product_id s)) of
                          None \<Rightarrow> fmempty | Some h \<Rightarrow> h)
                       ++\<^sub>f fmap_of_list [(''quantity'', Text (str_int (s_quantity s))),
                                          (''name'', Text (p_name p)), (''sku'', Text (p_sku p)),
                                          (''price'', FloatText (p_price p))]))
          \<and> (\<forall>k. k \<notin> stock_key ` (s_product_id ` set (stocks (db example_world))
                                     \<inter> p_id ` set (products (db example_world)))
                 \<longrightarrow> fmlookup (cache w') k = fmlookup (cache example_world) k)"
    and ok: "no_faults Session_execute = None \<and> no_faults Pipeline_execute = None \<longrightarrow> r = Inr ()"
    by (elim exE conjE) (rule that)
  from ok have r: "r = Inr ()" by simp
  from entries r have "fmlookup (cache w') (stock_key (s_product_id ?s))
               = Some ((case fmlookup (cache example_world) (stock_key (s_product_id ?s)) of
                          None \<Rightarrow> fmempty | Some h \<Rightarrow> h)
                       ++\<^sub>f fmap_of_list [(''quantity'', Text (str_int (s_quantity ?s))),
                                          (''name'', Text (p_name ?p)), (''sku'', Text (p_sku ?p)),
                                          (''price'', FloatText (p_price ?p))])"
    by (simp add: example_world_def)
  then have "fmlookup (cache w') ''stock:1''
             = Some (fmap_of_list [(''quantity'', Text ''10''), (''name'', Text ''Widget''),
                                   (''sku'', Text ''W1''), (''price'', FloatText (999 / 100))])"
    by (simp add: text_eval example_world_def)
  moreover from ev have "events w' = [Session_opened, Session_closed]"
    by (simp add: example_world_def)
  ultimately show ?thesis using run r example_world_facts(1) by blast
qed

theorem update_stock_redis_rehydrates_first_witness:
  "\<exists>w'. update_stock_redis no_faults [Mapping_item 1 3 None] ''+'' example_world = (Inr (), w')
     \<and> hget (cache w') ''stock:1'' ''quantity'' = Some (Text ''13'')
     \<and> hget (cache w') ''stock:1'' ''name'' = Some (Text ''Widget'')
     \<and> hget (cache w') ''stock:1'' ''sku'' = Some (Text ''W1'')
     \<and> hget (cache w') ''stock:1'' ''price'' = Some (FloatText (999 / 100))
     \<and> events w' = [Session_opened, Session_closed, Session_opened, Session_closed]"
proof -
  let ?items = "[Mapping_item 1 3 None]"
  let ?c1 = "pipeline_execute (cache example_world)
               (map stock_entry (select_stocks_join_products (db example_world)))"
  have n: "?items \<noteq> []" by simp
  from update_stock_redis_rehydrates_first [OF n example_world_facts(2,1), where operation = "''+''"]
  obtain w' where run: "update_stock_redis no_faults ?items ''+'' example_world = (Inr (), w')"
    and ev: "events w' = events example_world @ [Session_opened, Session_closed, Session_opened, Session_closed]"
    and c: "cache w' = pipeline_execute ?c1
              (map (spec_write (db example_world) (spec_rehydrated_quantity (db example_world)) ''+'')
                 (map normalize_item ?items))"
    and q: "\<forall>pid. hget (cache w') (stock_key pid) ''quantity''
           = (case last_quantity (map normalize_item ?items) pid of
                None \<Rightarrow> hget ?c1 (stock_key pid) ''quantity''
              | Some q \<Rightarrow>
                  Some (Text (str_int (if ''+'' = ''+'' then spec_rehydrated_quantity (db example_world) pid + q
                                       else spec_rehydrated_quantity (db example_world) pid - q))))"
    by (elim exE conjE) (rule that)
  have k: "stock_key 1 = ''stock:1''" and t: "str_int 13 = ''13''" by (simp_all add: text_eval)
  from q have "hget (cache w') (stock_key 1) ''quantity'' = Some (Text (str_int 13))"
    by (simp add: example_world_facts(3))
  then have quantity: "hget (cache w') ''stock:1'' ''quantity'' = Some (Text ''13'')"
    by (simp only: k t)
  have fields: "hget (cache w') ''stock:1'' ''name'' = Some (Text ''Widget'')"
    "hget (cache w') ''stock:1'' ''sku'' = Some (Text ''W1'')"
    "hget (cache w') ''stock:1'' ''price'' = Some (FloatText (999 / 100))"
    unfolding c
    by (simp_all add: example_world_def select_stocks_join_products_def stock_entry_def
        spec_write_def pipeline_execute_def hget_hset text_eval)
  from ev have "events w' = [Session_opened, Session_closed, Session_opened, Session_closed]"
    by (simp add: example_world_def)
  with run quantity fields show ?thesis by blast
qed

theorem update_stock_redis_same_product_witness:
  "\<exists>w'. update_stock_redis no_faults [Mapping_item 1 3 None, Object_item 1 5 None] ''+'' warm_world
           = (Inr (), w')
     \<and> hget (cache w') ''stock:1'' ''quantity'' = Some (Text ''15'')"
proof -
  let ?items = "[Mapping_item 1 3 None, Object_item 1 5 None]"
  have n: "?items \<noteq> []" by simp
  have car: "cache_at_reads warm_world = cache warm_world"
    using warm_world_facts(1) by (simp add: cache_at_reads_def)
  have s: "\<forall>item \<in> set ?items.
           stored_quantity (cache_at_reads warm_world) (fst (normalize_item item))
             ((\<lambda>_. 10) (fst (normalize_item item)))"
    by (simp add: car warm_world_facts)
  from update_stock_redis_same_product [where order_items = ?items and w = warm_world
      and current = "\<lambda>_. 10" and operation = "''+''", OF n warm_world_facts(2) s]
  obtain w' where run: "update_stock_redis no_faults ?items ''+'' warm_world = (Inr (), w')"
    and q: "\<forall>pid. hget (cache w') (stock_key pid) ''quantity''
                = (case last_quantity (map normalize_item ?items) pid of
                     None \<Rightarrow> hget (cache_at_reads warm_world) (stock_key pid) ''quantity''
                   | Some q \<Rightarrow> Some (Text (str_int (if ''+'' = ''+'' then 10 + q else 10 - q))))"
    by (elim exE conjE) (rule that)
  have k: "stock_key 1 = ''stock:1''" and t: "str_int 15 = ''15''" by (simp_all add: text_eval)
  from q have "hget (cache w') (stock_key 1) ''quantity'' = Some (Text (str_int 15))"
    by simp
  then have "hget (cache w') ''stock:1'' ''quantity'' = Some (Text ''15'')"
    by (simp only: k t)
  with run show ?thesis by blast
qed

theorem update_stock_redis_item_writes_witness:
  "\<exists>w'. update_stock_redis no_faults
           [Object_item 1 3 None, Mapping_item 2 4 (Some (5 / 2)), Mapping_item 3 1 None] ''-'' warm_world
         = (Inr (), w')
     \<and> cache w' = pipeline_execute (cache warm_world)
         [(''stock:1'', [(''quantity'', Text ''7''), (''name'', Text ''Widget''),
                        (''sku'', Text ''W1''), (''price'', FloatText (999 / 100))]),
          (''stock:2'', [(''quantity'', Text ''-4''), (''price'', FloatText (5 / 2))]),
          (''stock:3'', [(''quantity'', Text ''-1'')])]
     \<and> hget (cache w') ''stock:1'' ''quantity'' = Some (Text ''7'')
     \<and> hget (cache w') ''stock:2'' ''quantity'' = Some (Text ''-4'')
     \<and> hget (cache w') ''stock:2'' ''price'' = Some (FloatText (5 / 2))
     \<and> hget (cache w') ''stock:2'' ''name'' = None
     \<and> hget (cache w') ''stock:3'' ''quantity'' = Some (Text ''-1'')
     \<and> hget (cache w') ''stock:3'' ''price'' = None"
proof -
  let ?items = "[Object_item 1 3 None, Mapping_item 2 4 (Some (5 / 2)), Mapping_item 3 1 None]"
  let ?current = "\<lambda>pid :: int. if pid = 1 then 10 else (0 :: int)"
  let ?cmds = "[(''stock:1'', [(''quantity'', Text ''7''), (''name'', Text ''Widget''),
                        (''sku'', Text ''W1''), (''price'', FloatText (999 / 100))]),
          (''stock:2'', [(''quantity'', Text ''-4''), (''price'', FloatText (5 / 2))]),
          (''stock:3'', [(''quantity'', Text ''-1'')])]"
  have n: "?items \<noteq> []" by simp
  have car: "cache_at_reads warm_world = cache warm_world"
    using warm_world_facts(1) by (simp add: cache_at_reads_def)
  have other: "hget (cache warm_world) (stock_key 2) field = None"
    "hget (cache warm_world) (stock_key 3) field = None" for field
    by (simp_all add: warm_world_def example_world_def hget_def text_eval)
  have s: "\<forall>item \<in> set ?items.
      stored_quantity (cache_at_reads warm_world) (fst (normalize_item item)) (?current (fst (normalize_item item)))"
    using warm_world_facts(4) by (simp add: car stored_quantity_def other)
  from update_stock_redis_item_writes [where order_items = ?items and w = warm_world
      and current = ?current and operation = "''-''", OF n warm_world_facts(2) s]
  obtain w' where run: "update_stock_redis no_faults ?items ''-'' warm_world = (Inr (), w')"
    and c: "cache w' = pipeline_execute (cache_at_reads warm_world)
                 (map (spec_write (db warm_world) ?current ''-'') (map normalize_item ?items))"
    by (elim exE conjE) (rule that)
  have cmds: "map (spec_write (db warm_world) ?current ''-'') (map normalize_item ?items) = ?cmds"
    by (simp add: spec_write_def warm_world_def example_world_def text_eval)
  have c': "cache w' = pipeline_execute (cache warm_world) ?cmds"
    using c by (simp only: car cmds)
  have k: "stock_key 2 = ''stock:2''" "stock_key 3 = ''stock:3''" "stock_key 1 = ''stock:1''"
    by (simp_all add: text_eval)
  have reads: "hget (cache w') ''stock:1'' ''quantity'' = Some (Text ''7'')"
    "hget (cache w') ''stock:2'' ''quantity'' = Some (Text ''-4'')"
    "hget (cache w') ''stock:2'' ''price'' = Some (FloatText (5 / 2))"
    "hget (cache w') ''stock:2'' ''name'' = None"
    "hget (cache w') ''stock:3'' ''quantity'' = Some (Text ''-1'')"
    "hget (cache w') ''stock:3'' ''price'' = None"
    unfolding c' using other [unfolded k]
    by (simp_all add: pipeline_execute_def hget_hset)
  from run c' reads show ?thesis by blast
qed

end
